theory Spec2Isabelle
  imports Main "HOL-Library.Word" "HOL-Library.AList"
begin

section \<open>The worklist server of CDICOMWorklistSCP.cpp\<close>

text \<open>
  A shallow embedding of \<^verbatim>\<open>DICOMWorklistSCP\<close> and of its three nested structs
  \<^verbatim>\<open>SCPStatus\<close>, \<^verbatim>\<open>ScopedStatus\<close> and \<^verbatim>\<open>Worklist\<close>.
  A member function \<^verbatim>\<open>S::f\<close> of a nested struct is the constant \<open>S_f\<close>; the member
  functions of \<^verbatim>\<open>DICOMWorklistSCP\<close> itself keep their plain names. Every function
  takes the object it mutates and returns it updated. What the code reads from outside
  the process is an argument or a component of the state: the clock (\<open>TimePoint\<close>),
  the file system (\<open>Disk\<close>), a directory listing, the outcome of opening the port.
  The mutex is not modelled: the functions are the sequential behaviour of one call.
\<close>

subsection \<open>The clock and the rendering of integers\<close>

text \<open>
  One reading of \<^verbatim>\<open>std::chrono::system_clock::now()\<close>, as the three things the code
  prints from it: \<^verbatim>\<open>put_time(..., "%Y%m%d_%H%M%S")\<close>, \<^verbatim>\<open>put_time(..., "%H:%M:%S")\<close>
  and the milliseconds since the epoch.
\<close>

record TimePoint =
  date_time :: string
  time_of_day :: string
  epoch_ms :: nat

text \<open>\<^verbatim>\<open>operator<<\<close> of a stream on an integer: its decimal digits.\<close>

fun ostream_nat :: "nat \<Rightarrow> string" where
  "ostream_nat n =
     (if n < 10 then [''0123456789'' ! n]
      else ostream_nat (n div 10) @ [''0123456789'' ! (n mod 10)])"

declare ostream_nat.simps [simp del]

definition ostream_int :: "int \<Rightarrow> string" where
  "ostream_int i =
     (if i < 0 then CHR ''-'' # ostream_nat (nat (- i)) else ostream_nat (nat i))"

subsection \<open>SCPStatus\<close>

text \<open>
  The data members lose their trailing underscore (\<^verbatim>\<open>isRunning_\<close> is \<open>isRunning\<close>):
  a name cannot end with one here.
  \<^verbatim>\<open>requestCount_\<close> is a C++ \<^verbatim>\<open>int\<close>: a 32-bit word, printed as a signed number.
  Nothing but time bounds the number of requests, so its increment wraps.
\<close>

record SCPStatus =
  isRunning :: bool
  requestCount :: "32 word"
  statusText :: string
  lastErrors :: string

text \<open>The constructor with its default arguments, as \<^verbatim>\<open>serverStatus_{}\<close> calls it.\<close>

definition SCPStatus_default :: SCPStatus where
  "SCPStatus_default =
     \<lparr>isRunning = False, requestCount = 0, statusText = ''Idle'', lastErrors = ''''\<rparr>"

definition SCPStatus_ToString :: "SCPStatus \<Rightarrow> string \<times> SCPStatus" where
  "SCPStatus_ToString s =
     (''Running: '' @ (if isRunning s then ''true'' else ''false'')
        @ CHR 0x0A # '' Requests: '' @ ostream_int (sint (requestCount s))
        @ CHR 0x0A # '' State: '' @ statusText s
        @ CHR 0x0A # '' Last Errors: ''
        @ (if lastErrors s = [] then ''None'' else lastErrors s),
      s\<lparr>lastErrors := ''''\<rparr>)"

definition SCPStatus_error :: "TimePoint \<Rightarrow> string \<Rightarrow> SCPStatus \<Rightarrow> SCPStatus" where
  "SCPStatus_error now message s =
     s\<lparr>lastErrors :=
         lastErrors s @ ([CHR 0x0A, CHR 0x09] @ time_of_day now @ '' Error: '' @ message)\<rparr>"

subsection \<open>ScopedStatus\<close>

text \<open>
  The guard holds a reference to the status; here the status is passed to the constructor
  and to the destructor, and returned by both.
\<close>

record ScopedStatus =
  previousStatusText :: string
  finalStatusText :: string

definition ScopedStatus_ctor ::
  "SCPStatus \<Rightarrow> string \<Rightarrow> string \<Rightarrow> ScopedStatus \<times> SCPStatus" where
  "ScopedStatus_ctor status actionName finalText =
     (\<lparr>previousStatusText = statusText status, finalStatusText = finalText\<rparr>,
      status\<lparr>statusText :=
          (if actionName = '''' then ''Processing'' else ''Processing: '' @ actionName)\<rparr>)"

definition ScopedStatus_changeStatus :: "string \<Rightarrow> ScopedStatus \<Rightarrow> ScopedStatus" where
  "ScopedStatus_changeStatus finalText g = g\<lparr>finalStatusText := finalText\<rparr>"

definition ScopedStatus_dtor :: "ScopedStatus \<Rightarrow> SCPStatus \<Rightarrow> SCPStatus" where
  "ScopedStatus_dtor g status =
     status\<lparr>statusText :=
         (if finalStatusText g = ''None'' then previousStatusText g
          else finalStatusText g)\<rparr>"

text \<open>
  A whole guarded scope: the guard is built with the final text \<open>f0\<close>, the body registers
  the final texts \<open>fs\<close> one after the other and turns the status into
  \<open>body status\<close>, and the guard is destroyed.
\<close>

definition guarded_scope ::
  "string \<Rightarrow> string \<Rightarrow> string list \<Rightarrow> (SCPStatus \<Rightarrow> SCPStatus) \<Rightarrow> SCPStatus \<Rightarrow> SCPStatus" where
  "guarded_scope actionName f0 fs body status =
     (case ScopedStatus_ctor status actionName f0 of
        (g, status1) \<Rightarrow>
          ScopedStatus_dtor (foldl (\<lambda>g f. ScopedStatus_changeStatus f g) g fs) (body status1))"

subsection \<open>Datasets and the file system\<close>

text \<open>
  A \<^verbatim>\<open>DcmDataset\<close> is opaque to the server: a list of tagged values. The file system maps
  a path to what the file holds; \<^verbatim>\<open>saveFile\<close> fails on the paths of \<open>write_protected\<close>
  and \<^verbatim>\<open>std::filesystem::remove\<close> cannot delete the files of \<open>undeletable\<close>.
  \<open>saveFile_calls\<close> is the trace of the calls of \<^verbatim>\<open>saveFile\<close> so far, the newest last:
  the path and the dataset of each, whether it succeeded or not.

  The code calls the overload \<^verbatim>\<open>std::filesystem::remove(path)\<close> that reports an error by
  throwing \<^verbatim>\<open>filesystem_error\<close>: it returns true when it has deleted the file, false
  when there was no file, and throws when the file is there and cannot be deleted. The
  other file system calls are taken not to throw.
\<close>

datatype DcmDataset = DcmDataset (elements: "(nat \<times> string) list")

datatype FileContent = DicomFile DcmDataset | OtherFile string

record Disk =
  files :: "string \<Rightarrow> FileContent option"
  write_protected :: "string set"
  undeletable :: "string set"
  saveFile_calls :: "(string \<times> DcmDataset) list"

definition fs_exists :: "string \<Rightarrow> Disk \<Rightarrow> bool" where
  "fs_exists path d = (files d path \<noteq> None)"

datatype exception = filesystem_error string

definition fs_remove :: "string \<Rightarrow> Disk \<Rightarrow> exception + (bool \<times> Disk)" where
  "fs_remove path d =
     (if files d path = None then Inr (False, d)
      else if path \<in> undeletable d then Inl (filesystem_error path)
      else Inr (True, d\<lparr>files := (files d)(path := None)\<rparr>))"

definition loadFile :: "string \<Rightarrow> Disk \<Rightarrow> DcmDataset option" where
  "loadFile path d = (case files d path of Some (DicomFile ds) \<Rightarrow> Some ds | _ \<Rightarrow> None)"

definition saveFile :: "string \<Rightarrow> DcmDataset \<Rightarrow> Disk \<Rightarrow> bool \<times> Disk" where
  "saveFile path ds d =
     (let d1 = d\<lparr>saveFile_calls := saveFile_calls d @ [(path, ds)]\<rparr>
      in if path \<in> write_protected d then (False, d1)
         else (True, d1\<lparr>files := (files d)(path \<mapsto> DicomFile ds)\<rparr>))"

text \<open>One entry of \<^verbatim>\<open>directory_iterator(dataFolder_)\<close>.\<close>

record DirEntry =
  is_regular_file :: bool
  filename :: string

subsection \<open>Worklist\<close>

text \<open>
  An \<^verbatim>\<open>Item\<close> owns a \<^verbatim>\<open>shared_ptr<DcmDataset>\<close>, which may be null: \<open>None\<close>.
  \<^verbatim>\<open>indexMap_\<close> is an \<^verbatim>\<open>unordered_map<int, Item*>\<close>: an association list with one
  pair for each key; every pointer it holds comes from \<^verbatim>\<open>new Item\<close>, so the values are
  the items themselves. The code does not say in which order such a map is iterated. The
  list takes the order of insertion, and the loops over the map go through the list. The
  loops treat every item by itself: the flag an item is left with, the set of the calls of
  \<^verbatim>\<open>saveFile\<close> and the result of a loop are the same in every order; only the order of
  the calls and of the log entries, and which of two items of one file name is written
  last, depend on it. \<^verbatim>\<open>freeIndexes_\<close> is
  a \<^verbatim>\<open>std::set<int>\<close>, whose \<^verbatim>\<open>begin()\<close> is its least element. An index is an
  \<^verbatim>\<open>int\<close>; the map is taken to hold fewer than \<open>2^31\<close> items, so that
  \<^verbatim>\<open>static_cast<int>(indexMap_.size())\<close> is the size itself.
\<close>

record Item =
  dataset :: "DcmDataset option"
  fileName :: string
  dirty :: bool

record Worklist =
  dataFolder :: string
  indexMap :: "(int \<times> Item) list"
  freeIndexes :: "int set"

definition Worklist_default :: Worklist where
  "Worklist_default = \<lparr>dataFolder = ''./worklist/'', indexMap = [], freeIndexes = {}\<rparr>"

definition Worklist_newFileName :: "string \<Rightarrow> TimePoint \<Rightarrow> string" where
  "Worklist_newFileName prefix now =
     prefix @ ''_'' @ date_time now @ ''_'' @ ostream_nat (epoch_ms now mod 1000) @ ''.dcm''"

definition Worklist_getFreeIndex :: "Worklist \<Rightarrow> int \<times> Worklist" where
  "Worklist_getFreeIndex w =
     (if freeIndexes w = {} then (int (length (indexMap w)), w)
      else (Min (freeIndexes w), w\<lparr>freeIndexes := freeIndexes w - {Min (freeIndexes w)}\<rparr>))"

text \<open>\<^verbatim>\<open>operator[]\<close>: the item of an index, \<open>None\<close> for \<^verbatim>\<open>nullptr\<close>.\<close>

definition Worklist_subscript :: "Worklist \<Rightarrow> int \<Rightarrow> Item option" where
  "Worklist_subscript w index = map_of (indexMap w) index"

definition Worklist_count :: "Worklist \<Rightarrow> int" where
  "Worklist_count w = int (length (indexMap w))"

definition Worklist_add :: "DcmDataset option \<Rightarrow> TimePoint \<Rightarrow> Worklist \<Rightarrow> int \<times> Worklist" where
  "Worklist_add ds now w =
     (let newItem = \<lparr>dataset = ds, fileName = Worklist_newFileName ''dataset'' now, dirty = True\<rparr>
      in case Worklist_getFreeIndex w of
        (index, w') \<Rightarrow> (index, w'\<lparr>indexMap := AList.update index newItem (indexMap w')\<rparr>))"

text \<open>
  \<^verbatim>\<open>remove\<close> deletes the file before it touches the map: when the deletion throws, the
  item is still in the map and its index is not free, and nothing has changed.
\<close>

definition Worklist_remove ::
  "int \<Rightarrow> Worklist \<Rightarrow> Disk \<Rightarrow> exception + (bool \<times> Worklist \<times> Disk)" where
  "Worklist_remove index w d =
     (case map_of (indexMap w) index of
        None \<Rightarrow> Inr (False, w, d)
      | Some item \<Rightarrow>
          (let path = dataFolder w @ fileName item;
               w' = w\<lparr>indexMap := AList.delete index (indexMap w),
                      freeIndexes := insert index (freeIndexes w)\<rparr>
           in if fs_exists path d then
                (case fs_remove path d of
                   Inl e \<Rightarrow> Inl e
                 | Inr (r, d') \<Rightarrow> Inr (True, w', d'))
              else Inr (True, w', d)))"

fun loadAllDatasets_loop ::
  "TimePoint \<Rightarrow> Disk \<Rightarrow> DirEntry list \<Rightarrow> Worklist \<Rightarrow> SCPStatus \<Rightarrow> nat
     \<Rightarrow> Worklist \<times> SCPStatus \<times> nat" where
  "loadAllDatasets_loop now d [] w st loadedCount = (w, st, loadedCount)"
| "loadAllDatasets_loop now d (entry # rest) w st loadedCount =
     (if \<not> is_regular_file entry then loadAllDatasets_loop now d rest w st loadedCount
      else
        (case loadFile (dataFolder w @ filename entry) d of
           Some ds \<Rightarrow>
             (case Worklist_getFreeIndex w of
                (idx, w') \<Rightarrow>
                  loadAllDatasets_loop now d rest
                    (w'\<lparr>indexMap :=
                         AList.update idx
                           \<lparr>dataset = Some ds, fileName = filename entry, dirty = False\<rparr>
                           (indexMap w')\<rparr>)
                    st (Suc loadedCount))
         | None \<Rightarrow>
             loadAllDatasets_loop now d rest w
               (SCPStatus_error now (''[Worklist] Failed to load: '' @ filename entry) st)
               loadedCount))"

definition Worklist_loadAllDatasets ::
  "TimePoint \<Rightarrow> DirEntry list \<Rightarrow> Worklist \<Rightarrow> SCPStatus \<Rightarrow> Disk \<Rightarrow> bool \<times> Worklist \<times> SCPStatus" where
  "Worklist_loadAllDatasets now entries w st d =
     (case loadAllDatasets_loop now d entries w st 0 of
        (w', st', loadedCount) \<Rightarrow> (0 < loadedCount, w', st'))"

text \<open>
  The loop of \<^verbatim>\<open>clear\<close>. A deletion that throws leaves the loop: the result is then the
  exception with the status and the disk at that moment, the files of the items before
  gone and nothing logged for the file that could not be deleted. \<^verbatim>\<open>clear\<close> then does
  not reach the two calls that empty the map and the set of free indices; the items that
  the loop has released are still in the map.
\<close>

fun clear_loop ::
  "string \<Rightarrow> TimePoint \<Rightarrow> (int \<times> Item) list \<Rightarrow> SCPStatus \<Rightarrow> Disk
     \<Rightarrow> (exception \<times> SCPStatus \<times> Disk) + (SCPStatus \<times> Disk)" where
  "clear_loop folder now [] st d = Inr (st, d)"
| "clear_loop folder now ((idx, item) # rest) st d =
     (let path = folder @ fileName item in
      if fs_exists path d then
        (case fs_remove path d of
           Inl e \<Rightarrow> Inl (e, st, d)
         | Inr (True, d') \<Rightarrow> clear_loop folder now rest st d'
         | Inr (False, d') \<Rightarrow>
             clear_loop folder now rest
               (SCPStatus_error now (''Failed to remove file: '' @ fileName item) st) d')
      else clear_loop folder now rest st d)"

definition Worklist_clear ::
  "TimePoint \<Rightarrow> Worklist \<Rightarrow> SCPStatus \<Rightarrow> Disk
     \<Rightarrow> (exception \<times> Worklist \<times> SCPStatus \<times> Disk) + (Worklist \<times> SCPStatus \<times> Disk)" where
  "Worklist_clear now w st d =
     (case clear_loop (dataFolder w) now (indexMap w) st d of
        Inl (e, st', d') \<Rightarrow> Inl (e, w, st', d')
      | Inr (st', d') \<Rightarrow> Inr (w\<lparr>indexMap := [], freeIndexes := {}\<rparr>, st', d'))"

definition Worklist_markDatasetDirty :: "int \<Rightarrow> Worklist \<Rightarrow> bool \<times> Worklist" where
  "Worklist_markDatasetDirty index w =
     (case Worklist_subscript w index of
        None \<Rightarrow> (False, w)
      | Some item \<Rightarrow>
          (True, w\<lparr>indexMap := AList.update index (item\<lparr>dirty := True\<rparr>) (indexMap w)\<rparr>))"

definition Worklist_saveDatasetInFile ::
  "int \<Rightarrow> TimePoint \<Rightarrow> Worklist \<Rightarrow> SCPStatus \<Rightarrow> Disk \<Rightarrow> bool \<times> Worklist \<times> SCPStatus \<times> Disk" where
  "Worklist_saveDatasetInFile index now w st d =
     (case Worklist_subscript w index of
        None \<Rightarrow> (False, w, st, d)
      | Some item \<Rightarrow>
          (case dataset item of
             None \<Rightarrow> (False, w, st, d)
           | Some ds \<Rightarrow>
               (case saveFile (dataFolder w @ fileName item) ds d of
                  (True, d') \<Rightarrow>
                    (True,
                     w\<lparr>indexMap := AList.update index (item\<lparr>dirty := False\<rparr>) (indexMap w)\<rparr>,
                     st, d')
                | (False, d') \<Rightarrow>
                    (False, w, SCPStatus_error now (''Failed to save: '' @ fileName item) st, d'))))"

text \<open>
  The body of the loop of \<^verbatim>\<open>saveAllDatasetsInFile\<close> on one item: the item, the status,
  the disk and the flag \<^verbatim>\<open>success\<close> after it.
\<close>

definition saveAll_body ::
  "string \<Rightarrow> TimePoint \<Rightarrow> Item \<Rightarrow> SCPStatus \<Rightarrow> Disk \<Rightarrow> bool \<Rightarrow> Item \<times> SCPStatus \<times> Disk \<times> bool" where
  "saveAll_body folder now item st d success =
     (case dataset item of
        None \<Rightarrow> (item, st, d, success)
      | Some ds \<Rightarrow>
          (case saveFile (folder @ fileName item) ds d of
             (True, d') \<Rightarrow> (item\<lparr>dirty := False\<rparr>, st, d', success)
           | (False, d') \<Rightarrow>
               (item, SCPStatus_error now (''Failed to save: '' @ fileName item) st, d', False)))"

fun saveAll_loop ::
  "string \<Rightarrow> TimePoint \<Rightarrow> (int \<times> Item) list \<Rightarrow> SCPStatus \<Rightarrow> Disk \<Rightarrow> bool
     \<Rightarrow> (int \<times> Item) list \<times> SCPStatus \<times> Disk \<times> bool" where
  "saveAll_loop folder now [] st d success = ([], st, d, success)"
| "saveAll_loop folder now ((idx, item) # rest) st d success =
     (case saveAll_body folder now item st d success of
        (item', st', d', success') \<Rightarrow>
          (case saveAll_loop folder now rest st' d' success' of
             (rest', st'', d'', success'') \<Rightarrow> ((idx, item') # rest', st'', d'', success'')))"

definition Worklist_saveAllDatasetsInFile ::
  "TimePoint \<Rightarrow> Worklist \<Rightarrow> SCPStatus \<Rightarrow> Disk \<Rightarrow> bool \<times> Worklist \<times> SCPStatus \<times> Disk" where
  "Worklist_saveAllDatasetsInFile now w st d =
     (case saveAll_loop (dataFolder w) now (indexMap w) st d True of
        (items, st', d', success) \<Rightarrow> (success, w\<lparr>indexMap := items\<rparr>, st', d'))"

text \<open>The same for \<^verbatim>\<open>saveDirtyDatasetsInFile\<close>, which also skips an item that is not dirty.\<close>

definition saveDirty_body ::
  "string \<Rightarrow> TimePoint \<Rightarrow> Item \<Rightarrow> SCPStatus \<Rightarrow> Disk \<Rightarrow> bool \<Rightarrow> Item \<times> SCPStatus \<times> Disk \<times> bool" where
  "saveDirty_body folder now item st d success =
     (case dataset item of
        None \<Rightarrow> (item, st, d, success)
      | Some ds \<Rightarrow>
          if \<not> dirty item then (item, st, d, success)
          else
            (case saveFile (folder @ fileName item) ds d of
               (True, d') \<Rightarrow> (item\<lparr>dirty := False\<rparr>, st, d', success)
             | (False, d') \<Rightarrow>
                 (item, SCPStatus_error now (''Failed to save: '' @ fileName item) st, d', False)))"

fun saveDirty_loop ::
  "string \<Rightarrow> TimePoint \<Rightarrow> (int \<times> Item) list \<Rightarrow> SCPStatus \<Rightarrow> Disk \<Rightarrow> bool
     \<Rightarrow> (int \<times> Item) list \<times> SCPStatus \<times> Disk \<times> bool" where
  "saveDirty_loop folder now [] st d success = ([], st, d, success)"
| "saveDirty_loop folder now ((idx, item) # rest) st d success =
     (case saveDirty_body folder now item st d success of
        (item', st', d', success') \<Rightarrow>
          (case saveDirty_loop folder now rest st' d' success' of
             (rest', st'', d'', success'') \<Rightarrow> ((idx, item') # rest', st'', d'', success'')))"

definition Worklist_saveDirtyDatasetsInFile ::
  "TimePoint \<Rightarrow> Worklist \<Rightarrow> SCPStatus \<Rightarrow> Disk \<Rightarrow> bool \<times> Worklist \<times> SCPStatus \<times> Disk" where
  "Worklist_saveDirtyDatasetsInFile now w st d =
     (case saveDirty_loop (dataFolder w) now (indexMap w) st d True of
        (items, st', d', success) \<Rightarrow> (success, w\<lparr>indexMap := items\<rparr>, st', d'))"

subsection \<open>Sequences of operations on the worklist\<close>

datatype WorklistOp =
    OpAdd "DcmDataset option" TimePoint
  | OpRemove int
  | OpLoadAll TimePoint "DirEntry list"
  | OpClear TimePoint
  | OpMarkDirty int
  | OpSaveOne int TimePoint
  | OpSaveAll TimePoint
  | OpSaveDirty TimePoint

text \<open>
  A step returns the state it leaves, or throws: then it gives the exception and the state
  at that moment. Nothing in the repository catches the exception, so a run ends with the
  first step that throws; \<open>Worklist_run\<close> is the state in which the run ends, either way.
\<close>

fun Worklist_step ::
  "WorklistOp \<Rightarrow> Worklist \<times> SCPStatus \<times> Disk
     \<Rightarrow> (exception \<times> Worklist \<times> SCPStatus \<times> Disk) + (Worklist \<times> SCPStatus \<times> Disk)" where
  "Worklist_step (OpAdd ds now) (w, st, d) = Inr (snd (Worklist_add ds now w), st, d)"
| "Worklist_step (OpRemove index) (w, st, d) =
     (case Worklist_remove index w d of
        Inl e \<Rightarrow> Inl (e, w, st, d)
      | Inr (r, w', d') \<Rightarrow> Inr (w', st, d'))"
| "Worklist_step (OpLoadAll now entries) (w, st, d) =
     (case Worklist_loadAllDatasets now entries w st d of (r, w', st') \<Rightarrow> Inr (w', st', d))"
| "Worklist_step (OpClear now) (w, st, d) = Worklist_clear now w st d"
| "Worklist_step (OpMarkDirty index) (w, st, d) =
     Inr (snd (Worklist_markDatasetDirty index w), st, d)"
| "Worklist_step (OpSaveOne index now) (w, st, d) =
     Inr (snd (Worklist_saveDatasetInFile index now w st d))"
| "Worklist_step (OpSaveAll now) (w, st, d) = Inr (snd (Worklist_saveAllDatasetsInFile now w st d))"
| "Worklist_step (OpSaveDirty now) (w, st, d) =
     Inr (snd (Worklist_saveDirtyDatasetsInFile now w st d))"

fun Worklist_run ::
  "WorklistOp list \<Rightarrow> Worklist \<times> SCPStatus \<times> Disk \<Rightarrow> Worklist \<times> SCPStatus \<times> Disk" where
  "Worklist_run [] s = s"
| "Worklist_run (op # ops) s =
     (case Worklist_step op s of
        Inl (e, s') \<Rightarrow> s'
      | Inr s' \<Rightarrow> Worklist_run ops s')"

text \<open>
  The live indices and the free ones together are an initial segment of the naturals:
  what the allocation of indices maintains.
\<close>

definition index_keys :: "Worklist \<Rightarrow> int set" where
  "index_keys w = set (map fst (indexMap w))"

definition indexes_wf :: "Worklist \<Rightarrow> bool" where
  "indexes_wf w =
     (distinct (map fst (indexMap w)) \<and> finite (freeIndexes w)
      \<and> index_keys w \<inter> freeIndexes w = {}
      \<and> index_keys w \<union> freeIndexes w
          = {0 ..< int (length (indexMap w) + card (freeIndexes w))})"

subsection \<open>The base class and the messages of the network layer\<close>

text \<open>
  \<^verbatim>\<open>DcmSCP\<close> and the message types belong to the network library. Of the base class the
  model keeps what \<^verbatim>\<open>start\<close> and \<^verbatim>\<open>stop\<close> set; whether \<^verbatim>\<open>openListenPort\<close> succeeds is an
  argument of \<open>start\<close>. A \<^verbatim>\<open>T_DIMSE_Message\<close> is a command field with a union: one
  constructor for each command the handler tells apart, the others with their command
  code. A response has the four fields the handler sets.
\<close>

record DcmSCP =
  port :: nat
  aeTitle :: string
  maxReceivePDULength :: nat
  connectionTimeout :: nat
  dimseTimeout :: nat
  acseTimeout :: nat
  presentationContexts :: "(string \<times> string list) list"
  listenPortOpen :: bool
  acceptThreads :: nat
  stopRequested :: bool

definition UID_LittleEndianImplicitTransferSyntax :: string where
  "UID_LittleEndianImplicitTransferSyntax = ''1.2.840.10008.1.2''"

definition UID_FINDModalityWorklistInformationModel :: string where
  "UID_FINDModalityWorklistInformationModel = ''1.2.840.10008.5.1.4.31''"

datatype T_DIMSE_DataSetType = DIMSE_DATASET_PRESENT | DIMSE_DATASET_NULL

definition STATUS_Success :: "16 word" where
  "STATUS_Success = 0"

record T_DIMSE_C_FindRQ =
  rq_MessageID :: "16 word"
  rq_AffectedSOPClassUID :: string
  rq_DataSetType :: T_DIMSE_DataSetType

record T_DIMSE_C_FindRSP =
  rsp_MessageIDBeingRespondedTo :: "16 word"
  rsp_AffectedSOPClassUID :: string
  rsp_DimseStatus :: "16 word"
  rsp_DataSetType :: T_DIMSE_DataSetType

datatype T_DIMSE_Message =
    DIMSE_C_FIND_RQ T_DIMSE_C_FindRQ
  | DIMSE_C_FIND_RSP T_DIMSE_C_FindRSP
  | DIMSE_other nat string

record DcmPresentationContextInfo =
  presentationContextID :: nat
  abstractSyntax :: string
  acceptedTransferSyntax :: string

text \<open>
  How \<^verbatim>\<open>handleIncomingCommand\<close> returns: with \<^verbatim>\<open>EC_IllegalCall\<close>, with the result of
  \<^verbatim>\<open>sendDIMSEMessage\<close> on a context, a message and a data object, or with the result of
  the base class's handler on the message and the context it was given.
\<close>

datatype HandlerReturn =
    Return_EC_IllegalCall
  | Return_sendDIMSEMessage nat T_DIMSE_Message "DcmDataset option"
  | Return_DcmSCP_handleIncomingCommand T_DIMSE_Message DcmPresentationContextInfo

subsection \<open>DICOMWorklistSCP\<close>

text \<open>
  The server object, with the file system it works on and its base class. An output
  parameter \<^verbatim>\<open>int*\<close> is null or points to an \<^verbatim>\<open>int\<close> of the caller; a function with one
  returns the value it stored through it, if any. A write through a null pointer ends the
  run: the result is the state in which it happens. So does an exception that leaves a
  function of the facade, since neither the C interface nor its caller catches it: the
  result is the exception and the state it leaves, after the guard's destructor has run.
\<close>

record DICOMWorklistSCP =
  templateFile :: string
  serverStatus :: SCPStatus
  datasets :: Worklist
  disk :: Disk
  scp :: DcmSCP

datatype int_ptr = nullptr | valid_ptr

datatype crash = NullPointerWrite DICOMWorklistSCP | Uncaught exception DICOMWorklistSCP

definition setTemplateFile :: "string \<Rightarrow> DICOMWorklistSCP \<Rightarrow> bool \<times> DICOMWorklistSCP" where
  "setTemplateFile name s =
     (case ScopedStatus_ctor (serverStatus s) ''Template file setting'' ''None'' of
        (scoped, st1) \<Rightarrow>
          (fs_exists name (disk s),
           s\<lparr>templateFile := name, serverStatus := ScopedStatus_dtor scoped st1\<rparr>))"

definition addDataset ::
  "int_ptr \<Rightarrow> TimePoint \<Rightarrow> DICOMWorklistSCP \<Rightarrow> crash + (bool \<times> int option \<times> DICOMWorklistSCP)" where
  "addDataset index now s =
     (case ScopedStatus_ctor (serverStatus s) ''Adding a dataset'' ''None'' of
        (scoped, st1) \<Rightarrow>
          (let newDataset =
                 (if templateFile s \<noteq> [] then
                    (case loadFile (templateFile s) (disk s) of
                       Some t \<Rightarrow> t
                     | None \<Rightarrow> DcmDataset [])
                  else DcmDataset [])
           in case Worklist_add (Some newDataset) now (datasets s) of
             (i, w') \<Rightarrow>
               (case index of
                  nullptr \<Rightarrow> Inl (NullPointerWrite (s\<lparr>datasets := w', serverStatus := st1\<rparr>))
                | valid_ptr \<Rightarrow>
                    Inr (True, Some i,
                         s\<lparr>datasets := w', serverStatus := ScopedStatus_dtor scoped st1\<rparr>))))"

definition deleteDataset :: "int \<Rightarrow> DICOMWorklistSCP \<Rightarrow> crash + (bool \<times> DICOMWorklistSCP)" where
  "deleteDataset index s =
     (case ScopedStatus_ctor (serverStatus s) ''Deleting a dataset'' ''None'' of
        (scoped, st1) \<Rightarrow>
          (case Worklist_remove index (datasets s) (disk s) of
             Inl e \<Rightarrow> Inl (Uncaught e (s\<lparr>serverStatus := ScopedStatus_dtor scoped st1\<rparr>))
           | Inr (r, w', d') \<Rightarrow>
               Inr (r, s\<lparr>datasets := w', disk := d',
                         serverStatus := ScopedStatus_dtor scoped st1\<rparr>)))"

definition getDatasetCount ::
  "int_ptr \<Rightarrow> DICOMWorklistSCP \<Rightarrow> bool \<times> int option \<times> DICOMWorklistSCP" where
  "getDatasetCount count_ptr s =
     (case count_ptr of
        nullptr \<Rightarrow> (False, None, s)
      | valid_ptr \<Rightarrow>
          (case ScopedStatus_ctor (serverStatus s) ''Getting dataset count'' ''None'' of
             (scoped, st1) \<Rightarrow>
               (True, Some (Worklist_count (datasets s)),
                s\<lparr>serverStatus := ScopedStatus_dtor scoped st1\<rparr>)))"

definition getDataset :: "int \<Rightarrow> DICOMWorklistSCP \<Rightarrow> DcmDataset option \<times> DICOMWorklistSCP" where
  "getDataset index s =
     (case ScopedStatus_ctor (serverStatus s) ''Getting dataset'' ''None'' of
        (scoped, st1) \<Rightarrow>
          ((case Worklist_subscript (datasets s) index of
              Some item \<Rightarrow> dataset item
            | None \<Rightarrow> None),
           s\<lparr>serverStatus := ScopedStatus_dtor scoped st1\<rparr>))"

definition clearAllDatasets ::
  "TimePoint \<Rightarrow> DICOMWorklistSCP \<Rightarrow> crash + (bool \<times> DICOMWorklistSCP)" where
  "clearAllDatasets now s =
     (case ScopedStatus_ctor (serverStatus s) ''Clearing the list'' ''None'' of
        (scoped, st1) \<Rightarrow>
          (case Worklist_clear now (datasets s) st1 (disk s) of
             Inl (e, w', st2, d') \<Rightarrow>
               Inl (Uncaught e
                      (s\<lparr>datasets := w', disk := d',
                         serverStatus := ScopedStatus_dtor scoped st2\<rparr>))
           | Inr (w', st2, d') \<Rightarrow>
               Inr (True, s\<lparr>datasets := w', disk := d',
                            serverStatus := ScopedStatus_dtor scoped st2\<rparr>)))"

definition start :: "bool \<Rightarrow> DICOMWorklistSCP \<Rightarrow> bool \<times> DICOMWorklistSCP" where
  "start listen_ok s =
     (case ScopedStatus_ctor (serverStatus s) ''Starting'' ''None'' of
        (scoped, st1) \<Rightarrow>
          if isRunning st1 then (True, s\<lparr>serverStatus := ScopedStatus_dtor scoped st1\<rparr>)
          else
            (let net = (scp s)
                   \<lparr>port := 104, aeTitle := ''WORKLIST_SCP'', maxReceivePDULength := 16384,
                    connectionTimeout := 30, dimseTimeout := 30, acseTimeout := 30,
                    presentationContexts :=
                      presentationContexts (scp s)
                        @ [(UID_FINDModalityWorklistInformationModel,
                            [UID_LittleEndianImplicitTransferSyntax])]\<rparr>
             in if listen_ok then
                  (True,
                   s\<lparr>scp := net\<lparr>listenPortOpen := True, acceptThreads := Suc (acceptThreads net)\<rparr>,
                     serverStatus :=
                       ScopedStatus_dtor (ScopedStatus_changeStatus ''Listening'' scoped)
                         (st1\<lparr>isRunning := True\<rparr>)\<rparr>)
                else (False, s\<lparr>scp := net, serverStatus := ScopedStatus_dtor scoped st1\<rparr>)))"

definition stop :: "DICOMWorklistSCP \<Rightarrow> bool \<times> DICOMWorklistSCP" where
  "stop s =
     (case ScopedStatus_ctor (serverStatus s) ''Stopping'' ''Idle'' of
        (scoped, st1) \<Rightarrow>
          if \<not> isRunning st1 then (True, s\<lparr>serverStatus := ScopedStatus_dtor scoped st1\<rparr>)
          else
            (True,
             s\<lparr>scp := (scp s)\<lparr>stopRequested := True\<rparr>,
               serverStatus := ScopedStatus_dtor scoped (st1\<lparr>isRunning := False\<rparr>)\<rparr>))"

definition getStatus :: "DICOMWorklistSCP \<Rightarrow> bool \<times> string \<times> DICOMWorklistSCP" where
  "getStatus s =
     (case SCPStatus_ToString (serverStatus s) of
        (status, st') \<Rightarrow> (True, status, s\<lparr>serverStatus := st'\<rparr>))"

definition markDatasetDirty :: "int \<Rightarrow> DICOMWorklistSCP \<Rightarrow> bool \<times> DICOMWorklistSCP" where
  "markDatasetDirty index s =
     (case ScopedStatus_ctor (serverStatus s) ''Marking dataset as dirty'' ''None'' of
        (scoped, st1) \<Rightarrow>
          (case Worklist_markDatasetDirty index (datasets s) of
             (r, w') \<Rightarrow> (r, s\<lparr>datasets := w', serverStatus := ScopedStatus_dtor scoped st1\<rparr>)))"

definition saveDirtyDatasets :: "TimePoint \<Rightarrow> DICOMWorklistSCP \<Rightarrow> bool \<times> DICOMWorklistSCP" where
  "saveDirtyDatasets now s =
     (case ScopedStatus_ctor (serverStatus s) ''Saving dirty datasets'' ''None'' of
        (scoped, st1) \<Rightarrow>
          (case Worklist_saveDirtyDatasetsInFile now (datasets s) st1 (disk s) of
             (r, w', st2, d') \<Rightarrow>
               (r, s\<lparr>datasets := w', disk := d', serverStatus := ScopedStatus_dtor scoped st2\<rparr>)))"

definition saveDataset :: "int \<Rightarrow> TimePoint \<Rightarrow> DICOMWorklistSCP \<Rightarrow> bool \<times> DICOMWorklistSCP" where
  "saveDataset index now s =
     (case ScopedStatus_ctor (serverStatus s) ''Saving a dataset by index'' ''None'' of
        (scoped, st1) \<Rightarrow>
          (case Worklist_saveDatasetInFile index now (datasets s) st1 (disk s) of
             (r, w', st2, d') \<Rightarrow>
               (r, s\<lparr>datasets := w', disk := d', serverStatus := ScopedStatus_dtor scoped st2\<rparr>)))"

definition saveAllDatasets :: "TimePoint \<Rightarrow> DICOMWorklistSCP \<Rightarrow> bool \<times> DICOMWorklistSCP" where
  "saveAllDatasets now s =
     (case ScopedStatus_ctor (serverStatus s) ''Saving all datasets'' ''None'' of
        (scoped, st1) \<Rightarrow>
          (case Worklist_saveAllDatasetsInFile now (datasets s) st1 (disk s) of
             (r, w', st2, d') \<Rightarrow>
               (r, s\<lparr>datasets := w', disk := d', serverStatus := ScopedStatus_dtor scoped st2\<rparr>)))"

definition loadAllDatasets ::
  "TimePoint \<Rightarrow> DirEntry list \<Rightarrow> DICOMWorklistSCP \<Rightarrow> bool \<times> DICOMWorklistSCP" where
  "loadAllDatasets now entries s =
     (case ScopedStatus_ctor (serverStatus s) ''Loading all datasets from file'' ''None'' of
        (scoped, st1) \<Rightarrow>
          (case Worklist_loadAllDatasets now entries (datasets s) st1 (disk s) of
             (r, w', st2) \<Rightarrow>
               (r, s\<lparr>datasets := w', serverStatus := ScopedStatus_dtor scoped st2\<rparr>)))"

text \<open>
  The constructor: the default status and an empty worklist, then \<^verbatim>\<open>loadAllDatasets\<close> on
  the entries of the data folder.
\<close>

definition DICOMWorklistSCP_ctor ::
  "TimePoint \<Rightarrow> DirEntry list \<Rightarrow> Disk \<Rightarrow> DcmSCP \<Rightarrow> DICOMWorklistSCP" where
  "DICOMWorklistSCP_ctor now entries d net =
     snd (loadAllDatasets now entries
            \<lparr>templateFile = [], serverStatus = SCPStatus_default, datasets = Worklist_default,
             disk = d, scp = net\<rparr>)"

definition handleIncomingCommand ::
  "T_DIMSE_Message option \<Rightarrow> DcmPresentationContextInfo \<Rightarrow> DICOMWorklistSCP
     \<Rightarrow> HandlerReturn \<times> DICOMWorklistSCP" where
  "handleIncomingCommand incomingMsg presInfo s =
     (let s1 = s\<lparr>serverStatus :=
                  (serverStatus s)\<lparr>requestCount := requestCount (serverStatus s) + 1\<rparr>\<rparr>
      in case incomingMsg of
        None \<Rightarrow> (Return_EC_IllegalCall, s1)
      | Some (DIMSE_C_FIND_RQ request) \<Rightarrow>
          (Return_sendDIMSEMessage (presentationContextID presInfo)
             (DIMSE_C_FIND_RSP
                \<lparr>rsp_MessageIDBeingRespondedTo = rq_MessageID request,
                 rsp_AffectedSOPClassUID = rq_AffectedSOPClassUID request,
                 rsp_DimseStatus = STATUS_Success,
                 rsp_DataSetType = DIMSE_DATASET_NULL\<rparr>)
             None,
           s1)
      | Some other \<Rightarrow> (Return_DcmSCP_handleIncomingCommand other presInfo, s1))"

subsection \<open>Sequences of calls on the server\<close>

datatype ServerOp =
    SetTemplateFile string
  | AddDataset int_ptr TimePoint
  | DeleteDataset int
  | GetDatasetCount int_ptr
  | GetDataset int
  | ClearAllDatasets TimePoint
  | Start bool
  | Stop
  | GetStatus
  | MarkDatasetDirty int
  | SaveDirtyDatasets TimePoint
  | SaveDataset int TimePoint
  | SaveAllDatasets TimePoint
  | LoadAllDatasets TimePoint "DirEntry list"
  | HandleIncomingCommand "T_DIMSE_Message option" DcmPresentationContextInfo

fun server_step :: "ServerOp \<Rightarrow> DICOMWorklistSCP \<Rightarrow> crash + DICOMWorklistSCP" where
  "server_step (SetTemplateFile name) s = Inr (snd (setTemplateFile name s))"
| "server_step (AddDataset p now) s =
     (case addDataset p now s of Inl c \<Rightarrow> Inl c | Inr (r, v, s') \<Rightarrow> Inr s')"
| "server_step (DeleteDataset index) s =
     (case deleteDataset index s of Inl c \<Rightarrow> Inl c | Inr (r, s') \<Rightarrow> Inr s')"
| "server_step (GetDatasetCount p) s = Inr (snd (snd (getDatasetCount p s)))"
| "server_step (GetDataset index) s = Inr (snd (getDataset index s))"
| "server_step (ClearAllDatasets now) s =
     (case clearAllDatasets now s of Inl c \<Rightarrow> Inl c | Inr (r, s') \<Rightarrow> Inr s')"
| "server_step (Start listen_ok) s = Inr (snd (start listen_ok s))"
| "server_step Stop s = Inr (snd (stop s))"
| "server_step GetStatus s = Inr (snd (snd (getStatus s)))"
| "server_step (MarkDatasetDirty index) s = Inr (snd (markDatasetDirty index s))"
| "server_step (SaveDirtyDatasets now) s = Inr (snd (saveDirtyDatasets now s))"
| "server_step (SaveDataset index now) s = Inr (snd (saveDataset index now s))"
| "server_step (SaveAllDatasets now) s = Inr (snd (saveAllDatasets now s))"
| "server_step (LoadAllDatasets now entries) s = Inr (snd (loadAllDatasets now entries s))"
| "server_step (HandleIncomingCommand m presInfo) s = Inr (snd (handleIncomingCommand m presInfo s))"

fun server_run :: "ServerOp list \<Rightarrow> DICOMWorklistSCP \<Rightarrow> crash + DICOMWorklistSCP" where
  "server_run [] s = Inr s"
| "server_run (op # ops) s =
     (case server_step op s of Inl c \<Rightarrow> Inl c | Inr s' \<Rightarrow> server_run ops s')"

text \<open>The state in which a run has ended.\<close>

fun crash_state :: "crash \<Rightarrow> DICOMWorklistSCP" where
  "crash_state (NullPointerWrite s) = s"
| "crash_state (Uncaught e s) = s"

subsection \<open>A server to run examples on\<close>

definition example_time :: TimePoint where
  "example_time = \<lparr>date_time = ''20250101_120000'', time_of_day = ''12:00:00'', epoch_ms = 5\<rparr>"

definition example_scp :: DcmSCP where
  "example_scp =
     \<lparr>port = 0, aeTitle = ''ANY-SCP'', maxReceivePDULength = 0, connectionTimeout = 0,
      dimseTimeout = 0, acseTimeout = 0, presentationContexts = [], listenPortOpen = False,
      acceptThreads = 0, stopRequested = False\<rparr>"

text \<open>Two template files with different contents, and an empty data folder.\<close>

definition example_disk :: Disk where
  "example_disk =
     \<lparr>files = [''a.dcm'' \<mapsto> DicomFile (DcmDataset [(1, ''A'')]),
               ''b.dcm'' \<mapsto> DicomFile (DcmDataset [(1, ''B'')])],
      write_protected = {}, undeletable = {}, saveFile_calls = []\<rparr>"

definition example_server :: DICOMWorklistSCP where
  "example_server = DICOMWorklistSCP_ctor example_time [] example_disk example_scp"

text \<open>
  Every item of the worklist has a dataset: what the facade maintains, since it only ever
  stores pointers that come from \<^verbatim>\<open>make_shared\<close>.
\<close>

definition records_present :: "Worklist \<Rightarrow> bool" where
  "records_present w = list_all (\<lambda>p. dataset (snd p) \<noteq> None) (indexMap w)"

section \<open>Properties of the status tracker\<close>

lemma foldl_changeStatus_final:
  "finalStatusText (foldl (\<lambda>g f. ScopedStatus_changeStatus f g) g fs)
     = last (finalStatusText g # fs)"
  by (induction fs arbitrary: g) (simp_all add: ScopedStatus_changeStatus_def)

lemma foldl_changeStatus_previous:
  "previousStatusText (foldl (\<lambda>g f. ScopedStatus_changeStatus f g) g fs)
     = previousStatusText g"
  by (induction fs arbitrary: g) (simp_all add: ScopedStatus_changeStatus_def)

text \<open>
  C5. Rendering reads the error log and clears it. The rendered text is the running flag,
  the request count, the status text and the error log, with \<open>None\<close> for an empty log. After
  an error is recorded, the first rendering ends with that error (time stamp, \<open>Error:\<close> and
  the message, behind what the log already held); the log is empty afterwards, and a second
  rendering with no error in between ends with \<open>None\<close>.
\<close>

theorem render_reads_and_clears_log:
  "fst (SCPStatus_ToString s) =
      ''Running: '' @ (if isRunning s then ''true'' else ''false'')
        @ CHR 0x0A # '' Requests: '' @ ostream_int (sint (requestCount s))
        @ CHR 0x0A # '' State: '' @ statusText s
        @ CHR 0x0A # '' Last Errors: '' @ (if lastErrors s = [] then ''None'' else lastErrors s)
   \<and> lastErrors (snd (SCPStatus_ToString s)) = ''''
   \<and> fst (SCPStatus_ToString (SCPStatus_error now message s)) =
      ''Running: '' @ (if isRunning s then ''true'' else ''false'')
        @ CHR 0x0A # '' Requests: '' @ ostream_int (sint (requestCount s))
        @ CHR 0x0A # '' State: '' @ statusText s
        @ CHR 0x0A # '' Last Errors: ''
        @ lastErrors s @ [CHR 0x0A, CHR 0x09] @ time_of_day now @ '' Error: '' @ message
   \<and> fst (SCPStatus_ToString (snd (SCPStatus_ToString (SCPStatus_error now message s)))) =
      ''Running: '' @ (if isRunning s then ''true'' else ''false'')
        @ CHR 0x0A # '' Requests: '' @ ostream_int (sint (requestCount s))
        @ CHR 0x0A # '' State: '' @ statusText s
        @ CHR 0x0A # '' Last Errors: '' @ ''None''"
  by (simp add: SCPStatus_ToString_def SCPStatus_error_def)

text \<open>
  C10. The text \<open>None\<close> is the guard's sentinel. Whatever the body does to the status, a
  guarded scope whose last registered final text is \<open>None\<close> (the constructor's default, or
  a call of \<open>changeStatus\<close> with \<open>None\<close>) leaves the status text that was saved on entry;
  any other last registered text is the status text on exit. So a registered \<open>None\<close> is
  never applied: the text on exit is \<open>None\<close> only if it was \<open>None\<close> on entry.
\<close>

theorem none_is_the_guard_sentinel:
  "statusText (ScopedStatus_dtor g status) =
      (if finalStatusText g = ''None'' then previousStatusText g else finalStatusText g)
   \<and> statusText (guarded_scope actionName f0 fs body status) =
      (if last (f0 # fs) = ''None'' then statusText status else last (f0 # fs))
   \<and> (statusText status \<noteq> ''None''
        \<longrightarrow> statusText (guarded_scope actionName f0 fs body status) \<noteq> ''None'')"
  by (simp add: guarded_scope_def ScopedStatus_ctor_def ScopedStatus_dtor_def
      foldl_changeStatus_final foldl_changeStatus_previous del: last.simps)

theorem none_is_the_guard_sentinel_witness:
  "statusText SCPStatus_default \<noteq> ''None''
   \<and> statusText (guarded_scope ''Starting'' ''None'' [''Listening'', ''None'']
        (\<lambda>st. st\<lparr>isRunning := True\<rparr>) SCPStatus_default) = ''Idle''
   \<and> statusText (guarded_scope ''Starting'' ''None'' [''Listening'']
        (\<lambda>st. st\<lparr>isRunning := True\<rparr>) SCPStatus_default) = ''Listening''"
  using none_is_the_guard_sentinel
    [of "\<lparr>previousStatusText = ''Idle'', finalStatusText = ''None''\<rparr>" SCPStatus_default
      "''Starting''" "''None''" "[''Listening'', ''None'']" "\<lambda>st. st\<lparr>isRunning := True\<rparr>"]
    none_is_the_guard_sentinel
    [of "\<lparr>previousStatusText = ''Idle'', finalStatusText = ''None''\<rparr>" SCPStatus_default
      "''Starting''" "''None''" "[''Listening'']" "\<lambda>st. st\<lparr>isRunning := True\<rparr>"]
  by (simp add: SCPStatus_default_def)

section \<open>The allocation of indices\<close>

lemma keys_card: "distinct (map fst (indexMap w)) \<Longrightarrow> length (indexMap w) = card (index_keys w)"
  unfolding index_keys_def by (metis distinct_card length_map)

lemma indexes_wf_alt:
  "indexes_wf w \<longleftrightarrow> distinct (map fst (indexMap w)) \<and> finite (freeIndexes w)
      \<and> index_keys w \<inter> freeIndexes w = {}
      \<and> index_keys w \<union> freeIndexes w = {0 ..< int (card (index_keys w) + card (freeIndexes w))}"
  unfolding indexes_wf_def using keys_card by auto

lemma index_keys_update:
  "index_keys (w\<lparr>indexMap := AList.update i item (indexMap w)\<rparr>) = insert i (index_keys w)"
  by (auto simp: index_keys_def update_keys)

lemma getFreeIndex_fresh:
  assumes "indexes_wf w"
  shows "fst (Worklist_getFreeIndex w) \<notin> index_keys w"
proof (cases "freeIndexes w = {}")
  case True
  with assms have "index_keys w = {0 ..< int (length (indexMap w))}"
    by (simp add: indexes_wf_def)
  with True show ?thesis by (simp add: Worklist_getFreeIndex_def)
next
  case False
  with assms have "Min (freeIndexes w) \<in> freeIndexes w"
    by (simp add: indexes_wf_def)
  moreover from assms have "index_keys w \<inter> freeIndexes w = {}"
    by (simp add: indexes_wf_def)
  ultimately have "Min (freeIndexes w) \<notin> index_keys w" by blast
  with False show ?thesis by (simp add: Worklist_getFreeIndex_def)
qed

lemma alloc_wf:
  assumes wf: "indexes_wf w" and g: "Worklist_getFreeIndex w = (i, w')"
  shows "indexes_wf (w'\<lparr>indexMap := AList.update i item (indexMap w')\<rparr>)"
proof (cases "freeIndexes w = {}")
  case True
  with g have i: "i = int (length (indexMap w))" and w': "w' = w"
    by (auto simp: Worklist_getFreeIndex_def)
  from wf True have keys: "index_keys w = {0 ..< int (length (indexMap w))}"
    by (simp add: indexes_wf_def)
  then have fresh: "i \<notin> index_keys w" using i by simp
  from wf have dist: "distinct (map fst (indexMap w))" by (simp add: indexes_wf_def)
  have fin: "finite (index_keys w)" by (simp add: index_keys_def)
  have c: "card (insert i (index_keys w)) = Suc (length (indexMap w))"
    using fresh fin keys_card [OF dist] by simp
  have r: "insert i (index_keys w) = {0 ..< int (Suc (length (indexMap w)))}"
    unfolding keys i by auto
  show ?thesis unfolding indexes_wf_alt w'
    by (simp add: index_keys_update distinct_update dist True c r del: of_nat_Suc)
next
  case False
  from wf have fin: "finite (freeIndexes w)" by (simp add: indexes_wf_def)
  with False have mem: "Min (freeIndexes w) \<in> freeIndexes w" by simp
  from g False have i: "i = Min (freeIndexes w)"
    and w': "w' = w\<lparr>freeIndexes := freeIndexes w - {Min (freeIndexes w)}\<rparr>"
    by (auto simp: Worklist_getFreeIndex_def)
  from wf mem have fresh: "i \<notin> index_keys w" using i by (auto simp: indexes_wf_def)
  have kfin: "finite (index_keys w)" by (simp add: index_keys_def)
  have keq: "index_keys w' = index_keys w" "indexMap w' = indexMap w" by (simp_all add: w' index_keys_def)
  have c1: "card (insert i (index_keys w)) = Suc (card (index_keys w))"
    using fresh kfin by simp
  have c2: "Suc (card (freeIndexes w - {i})) = card (freeIndexes w)"
    using mem fin i by (metis card_Suc_Diff1)
  have total: "card (insert i (index_keys w)) + card (freeIndexes w - {i})
                 = card (index_keys w) + card (freeIndexes w)"
    using c1 c2 by linarith
  have u: "insert i (index_keys w) \<union> (freeIndexes w - {i}) = index_keys w \<union> freeIndexes w"
    using mem i by auto
  from wf have un: "index_keys w \<union> freeIndexes w = {0 ..< int (card (index_keys w) + card (freeIndexes w))}"
    and dj: "index_keys w \<inter> freeIndexes w = {}" and dist: "distinct (map fst (indexMap w))"
    by (simp_all only: indexes_wf_alt)
  have fr: "freeIndexes w' = freeIndexes w - {i}" by (simp add: w' i)
  let ?w = "w'\<lparr>indexMap := AList.update i item (indexMap w')\<rparr>"
  have k: "index_keys ?w = insert i (index_keys w)"
    by (auto simp: index_keys_def update_keys keq)
  have f: "freeIndexes ?w = freeIndexes w - {i}" by (simp add: fr)
  have "distinct (map fst (indexMap ?w))" by (simp add: distinct_update keq dist)
  moreover have "finite (freeIndexes ?w)" unfolding f using fin by simp
  moreover have "index_keys ?w \<inter> freeIndexes ?w = {}" unfolding k f using dj by blast
  moreover have "index_keys ?w \<union> freeIndexes ?w
      = {0 ..< int (card (index_keys ?w) + card (freeIndexes ?w))}"
    unfolding k f total u by (rule un)
  ultimately show ?thesis by (simp only: indexes_wf_alt)
qed


lemma indexes_wf_cong:
  assumes "map fst (indexMap w') = map fst (indexMap w)" and "freeIndexes w' = freeIndexes w"
  shows "indexes_wf w' = indexes_wf w"
proof -
  have "length (indexMap w') = length (indexMap w)"
    using assms(1) by (metis length_map)
  with assms show ?thesis by (simp add: indexes_wf_def index_keys_def)
qed

lemma update_present_keys:
  "map_of al k = Some v \<Longrightarrow> map fst (AList.update k v' al) = map fst al"
  by (auto simp: update_keys dest: map_of_SomeD intro: rev_image_eqI)

lemma Worklist_remove_returns:
  assumes "Worklist_remove index w d = Inr (r, w', d')"
  shows "(map_of (indexMap w) index = None \<and> \<not> r \<and> w' = w \<and> d' = d)
       \<or> (map_of (indexMap w) index \<noteq> None \<and> r
           \<and> w' = w\<lparr>indexMap := AList.delete index (indexMap w),
                      freeIndexes := insert index (freeIndexes w)\<rparr>)"
  using assms
  by (auto simp: Worklist_remove_def Let_def split: option.splits if_splits sum.splits)

lemma Worklist_remove_throws:
  "Worklist_remove index w d = Inl e \<longleftrightarrow>
     (\<exists>item. map_of (indexMap w) index = Some item
        \<and> files d (dataFolder w @ fileName item) \<noteq> None
        \<and> dataFolder w @ fileName item \<in> undeletable d
        \<and> e = filesystem_error (dataFolder w @ fileName item))"
  by (auto simp: Worklist_remove_def Let_def fs_exists_def fs_remove_def
      split: option.splits if_splits sum.splits)

lemma remove_entry_wf:
  assumes wf: "indexes_wf w" and Some: "map_of (indexMap w) index = Some item"
  shows "indexes_wf (w\<lparr>indexMap := AList.delete index (indexMap w),
               freeIndexes := insert index (freeIndexes w)\<rparr>)"
proof -
  let ?w = "w\<lparr>indexMap := AList.delete index (indexMap w),
               freeIndexes := insert index (freeIndexes w)\<rparr>"
  from Some have mem: "index \<in> index_keys w"
    unfolding index_keys_def by (auto dest: map_of_SomeD intro: rev_image_eqI)
  from wf have un: "index_keys w \<union> freeIndexes w = {0 ..< int (card (index_keys w) + card (freeIndexes w))}"
    and dj: "index_keys w \<inter> freeIndexes w = {}" and dist: "distinct (map fst (indexMap w))"
    and fin: "finite (freeIndexes w)"
    by (simp_all only: indexes_wf_alt)
  have kfin: "finite (index_keys w)" by (simp add: index_keys_def)
  from mem dj have nf: "index \<notin> freeIndexes w" by blast
  have k: "index_keys ?w = index_keys w - {index}"
    by (auto simp: index_keys_def delete_keys)
  have f: "freeIndexes ?w = insert index (freeIndexes w)" by simp
  have c1: "Suc (card (index_keys w - {index})) = card (index_keys w)"
    using mem kfin by (metis card_Suc_Diff1)
  have c2: "card (insert index (freeIndexes w)) = Suc (card (freeIndexes w))"
    using nf fin by simp
  have total: "card (index_keys w - {index}) + card (insert index (freeIndexes w))
                 = card (index_keys w) + card (freeIndexes w)"
    using c1 c2 by linarith
  have u: "(index_keys w - {index}) \<union> insert index (freeIndexes w) = index_keys w \<union> freeIndexes w"
    using mem by auto
  have "distinct (map fst (indexMap ?w))" using dist by (simp add: distinct_delete)
  moreover have "finite (freeIndexes ?w)" using fin by simp
  moreover have "index_keys ?w \<inter> freeIndexes ?w = {}" unfolding k f using dj by blast
  moreover have "index_keys ?w \<union> freeIndexes ?w
      = {0 ..< int (card (index_keys ?w) + card (freeIndexes ?w))}"
    unfolding k f total u by (rule un)
  ultimately show ?thesis by (simp only: indexes_wf_alt)
qed

lemma remove_wf:
  assumes "indexes_wf w" and "Worklist_remove index w d = Inr (r, w', d')"
  shows "indexes_wf w'"
  using Worklist_remove_returns [OF assms(2)] assms(1)
  by (auto intro: remove_entry_wf)

lemma wf_same_keys:
  assumes "indexes_wf w" and "map fst items = map fst (indexMap w)"
  shows "indexes_wf (w\<lparr>indexMap := items\<rparr>)"
proof -
  have "indexes_wf (w\<lparr>indexMap := items\<rparr>) = indexes_wf w"
    by (rule indexes_wf_cong) (simp_all add: assms(2))
  with assms(1) show ?thesis by simp
qed

lemma wf_update_present:
  assumes "indexes_wf w" and "map_of (indexMap w) k = Some v"
  shows "indexes_wf (w\<lparr>indexMap := AList.update k v' (indexMap w)\<rparr>)"
  using assms(1) by (rule wf_same_keys) (rule update_present_keys [OF assms(2)])

lemma add_wf: "indexes_wf w \<Longrightarrow> indexes_wf (snd (Worklist_add ds now w))"
  by (auto simp: Worklist_add_def Let_def split: prod.splits intro: alloc_wf)

lemma markDatasetDirty_wf:
  "indexes_wf w \<Longrightarrow> indexes_wf (snd (Worklist_markDatasetDirty index w))"
  by (auto simp: Worklist_markDatasetDirty_def Worklist_subscript_def
      split: option.splits intro: wf_update_present)

lemma loadAllDatasets_loop_wf:
  "indexes_wf w \<Longrightarrow> loadAllDatasets_loop now d entries w st n = (w', r)
     \<Longrightarrow> indexes_wf w'"
proof (induction entries arbitrary: w st n)
  case Nil
  then show ?case by simp
next
  case (Cons entry rest)
  show ?case
  proof (cases "is_regular_file entry")
    case False
    with Cons.prems Cons.IH [of w st n] show ?thesis by simp
  next
    case True
    show ?thesis
    proof (cases "loadFile (dataFolder w @ filename entry) d")
      case None
      with True Cons.prems Cons.IH [OF Cons.prems(1)] show ?thesis by simp
    next
      case (Some ds)
      obtain i w1 where g: "Worklist_getFreeIndex w = (i, w1)" by force
      let ?w = "w1\<lparr>indexMap := AList.update i
                   \<lparr>dataset = Some ds, fileName = filename entry, dirty = False\<rparr> (indexMap w1)\<rparr>"
      have "indexes_wf ?w" using Cons.prems(1) g by (rule alloc_wf)
      moreover from True Some g Cons.prems(2)
      have "loadAllDatasets_loop now d rest ?w st (Suc n) = (w', r)" by simp
      ultimately show ?thesis by (rule Cons.IH)
    qed
  qed
qed

lemma loadAllDatasets_wf:
  "indexes_wf w \<Longrightarrow> indexes_wf (fst (snd (Worklist_loadAllDatasets now entries w st d)))"
  by (auto simp: Worklist_loadAllDatasets_def split: prod.splits
      intro: loadAllDatasets_loop_wf)

lemma clear_wf:
  "Worklist_clear now w st d = Inr (w', st', d') \<Longrightarrow> indexes_wf w'"
  by (auto simp: Worklist_clear_def indexes_wf_def index_keys_def
      split: sum.splits prod.splits)

lemma clear_throws_keeps_worklist:
  "Worklist_clear now w st d = Inl (e, w', st', d') \<Longrightarrow> w' = w"
  by (auto simp: Worklist_clear_def split: sum.splits prod.splits)

lemma saveDatasetInFile_wf:
  "indexes_wf w \<Longrightarrow> indexes_wf (fst (snd (Worklist_saveDatasetInFile index now w st d)))"
  by (auto simp: Worklist_saveDatasetInFile_def Worklist_subscript_def
      split: option.splits prod.splits bool.splits intro: wf_update_present)

lemma saveAll_loop_keys:
  "saveAll_loop folder now items st d b = (items', r) \<Longrightarrow> map fst items' = map fst items"
  by (induction items arbitrary: st d b items' r) (auto split: prod.splits)

lemma saveDirty_loop_keys:
  "saveDirty_loop folder now items st d b = (items', r) \<Longrightarrow> map fst items' = map fst items"
  by (induction items arbitrary: st d b items' r) (auto split: prod.splits)

lemma saveAllDatasetsInFile_wf:
  "indexes_wf w \<Longrightarrow> indexes_wf (fst (snd (Worklist_saveAllDatasetsInFile now w st d)))"
  by (auto simp: Worklist_saveAllDatasetsInFile_def split: prod.splits
      dest: saveAll_loop_keys intro: wf_same_keys)

lemma saveDirtyDatasetsInFile_wf:
  "indexes_wf w \<Longrightarrow> indexes_wf (fst (snd (Worklist_saveDirtyDatasetsInFile now w st d)))"
  by (auto simp: Worklist_saveDirtyDatasetsInFile_def split: prod.splits
      dest: saveDirty_loop_keys intro: wf_same_keys)

lemma step_wf:
  assumes "indexes_wf (fst s)"
  shows "case Worklist_step op s of
           Inl (e, s') \<Rightarrow> indexes_wf (fst s')
         | Inr s' \<Rightarrow> indexes_wf (fst s')"
proof (cases s)
  case (fields w st d)
  with assms have wf: "indexes_wf w" by simp
  show ?thesis
  proof (cases op)
    case (OpAdd ds now)
    with fields wf show ?thesis by (simp add: add_wf)
  next
    case (OpRemove index)
    with fields wf show ?thesis
      by (auto split: sum.splits prod.splits dest: remove_wf)
  next
    case (OpLoadAll now entries)
    with fields loadAllDatasets_wf [OF wf, of now entries st d] show ?thesis
      by (auto split: prod.splits)
  next
    case (OpClear now)
    with fields wf show ?thesis
      by (auto split: sum.splits prod.splits
          dest: clear_wf clear_throws_keeps_worklist)
  next
    case (OpMarkDirty index)
    with fields wf show ?thesis by (simp add: markDatasetDirty_wf)
  next
    case (OpSaveOne index now)
    with fields saveDatasetInFile_wf [OF wf, of index now st d] show ?thesis by simp
  next
    case (OpSaveAll now)
    with fields saveAllDatasetsInFile_wf [OF wf, of now st d] show ?thesis by simp
  next
    case (OpSaveDirty now)
    with fields saveDirtyDatasetsInFile_wf [OF wf, of now st d] show ?thesis by simp
  qed
qed

lemma run_wf: "indexes_wf (fst s) \<Longrightarrow> indexes_wf (fst (Worklist_run ops s))"
proof (induction ops arbitrary: s)
  case Nil
  then show ?case by simp
next
  case (Cons op ops)
  from step_wf [OF Cons.prems, of op] Cons.IH show ?case
    by (auto split: sum.splits prod.splits)
qed

lemma default_wf: "indexes_wf Worklist_default"
  by (simp add: indexes_wf_def Worklist_default_def index_keys_def)

lemma reachable_wf: "indexes_wf (fst (Worklist_run ops (Worklist_default, st, d)))"
  by (rule run_wf) (simp add: default_wf)

text \<open>
  C1. After any sequence of operations on the worklist that starts from the empty store
  (add, remove, loadAll, clear, and markDirty and the three saves as well), the indices of
  the live items are pairwise different, no free index is the index of a live item, and
  the index that the next new item gets is not the index of a live item. This holds of the
  state in which the run ends, whether its last operation has returned or thrown.
\<close>

theorem index_uniqueness_and_free_list_disjointness:
  "distinct (map fst (indexMap (fst (Worklist_run ops (Worklist_default, st, d)))))
   \<and> set (map fst (indexMap (fst (Worklist_run ops (Worklist_default, st, d)))))
        \<inter> freeIndexes (fst (Worklist_run ops (Worklist_default, st, d))) = {}
   \<and> fst (Worklist_getFreeIndex (fst (Worklist_run ops (Worklist_default, st, d))))
        \<notin> set (map fst (indexMap (fst (Worklist_run ops (Worklist_default, st, d)))))"
proof -
  let ?w = "fst (Worklist_run ops (Worklist_default, st, d))"
  have wf: "indexes_wf ?w" by (rule reachable_wf)
  then have "distinct (map fst (indexMap ?w))"
    and "index_keys ?w \<inter> freeIndexes ?w = {}"
    by (simp_all add: indexes_wf_def)
  moreover from wf have "fst (Worklist_getFreeIndex ?w) \<notin> index_keys ?w"
    by (rule getFreeIndex_fresh)
  ultimately show ?thesis by (simp add: index_keys_def)
qed

lemma recycling_scenario:
  assumes "files d (dataFolder Worklist_default @ Worklist_newFileName ''dataset'' t1) = None
           \<or> dataFolder Worklist_default @ Worklist_newFileName ''dataset'' t1 \<notin> undeletable d"
  shows "case Worklist_add ds1 t1 Worklist_default of (i1, w1) \<Rightarrow>
     case Worklist_add ds2 t2 w1 of (i2, w2) \<Rightarrow>
       i1 = 0 \<and> i2 = 1
       \<and> (case Worklist_remove 0 w2 d of
             Inl e \<Rightarrow> False
           | Inr (r, w3, d3) \<Rightarrow>
               r \<and> (case Worklist_add ds3 t3 w3 of (i3, w4) \<Rightarrow>
                      i3 = 0 \<and> Worklist_count w4 = 2))"
  using assms
  by (auto simp: Worklist_add_def Worklist_getFreeIndex_def Worklist_default_def
      Worklist_remove_def Worklist_count_def Let_def fs_exists_def fs_remove_def)

lemma recycled_index_is_least:
  assumes wf: "indexes_wf w" and keys: "index_keys w = {0 ..< n}" and k: "0 \<le> k" "k < n"
    and rem: "Worklist_remove k w d = Inr (r, w', d')"
  shows "r \<and> fst (Worklist_add ds now w') = k"
proof -
  from keys k have mem: "k \<in> fst ` set (indexMap w)" by (simp add: index_keys_def)
  then have item: "map_of (indexMap w) k \<noteq> None"
    by (simp add: map_of_eq_None_iff)
  let ?w = "w\<lparr>indexMap := AList.delete k (indexMap w), freeIndexes := insert k (freeIndexes w)\<rparr>"
  from Worklist_remove_returns [OF rem] item have res: "r" "w' = ?w" by auto
  from wf have fin: "finite (freeIndexes w)" and dj: "index_keys w \<inter> freeIndexes w = {}"
    and un: "index_keys w \<union> freeIndexes w
               = {0 ..< int (length (indexMap w) + card (freeIndexes w))}"
    by (simp_all add: indexes_wf_def)
  have "k \<le> y" if "y \<in> freeIndexes w" for y
  proof -
    from that dj keys have "y \<notin> {0 ..< n}" by blast
    moreover from that un have "0 \<le> y" by auto
    ultimately show ?thesis using k by simp
  qed
  then have "Min (insert k (freeIndexes w)) = k"
    using fin by (intro Min_eqI) auto
  then have "fst (Worklist_add ds now ?w) = k"
    by (simp add: Worklist_add_def Worklist_getFreeIndex_def Let_def)
  with res show ?thesis by simp
qed

lemma remove_returns_when_deletable:
  assumes "Worklist_subscript w k = Some item"
    and "files d (dataFolder w @ fileName item) = None
         \<or> dataFolder w @ fileName item \<notin> undeletable d"
  shows "\<exists>w' d'. Worklist_remove k w d = Inr (True, w', d')"
  using assms
  by (auto simp: Worklist_subscript_def Worklist_remove_def Let_def fs_exists_def
      fs_remove_def)

text \<open>
  C2. Indices are given out least first, and a freed index is used again. On the empty
  store the first add returns 0 and the second 1; remove(0) then returns true, the next
  add returns 0 again and the count is then 2. The removal deletes the file of the item,
  if there is one: the scenario is that of a disk on which there is no file of that name
  that cannot be deleted, since otherwise the removal throws. In a store reached from the
  empty one whose live indices are \<open>0..n-1\<close>, after the removal of \<open>k\<close> with \<open>k < n - 1\<close>,
  which has returned true, the next add returns \<open>k\<close>, which is not \<open>n\<close>; and the removal
  of an item does return when its file is absent or can be deleted.
\<close>

theorem min_first_index_recycling:
  "(files d (dataFolder Worklist_default @ Worklist_newFileName ''dataset'' t1) = None
      \<or> dataFolder Worklist_default @ Worklist_newFileName ''dataset'' t1 \<notin> undeletable d
    \<longrightarrow>
     (case Worklist_add ds1 t1 Worklist_default of (i1, w1) \<Rightarrow>
      case Worklist_add ds2 t2 w1 of (i2, w2) \<Rightarrow>
        i1 = 0 \<and> i2 = 1
        \<and> (case Worklist_remove 0 w2 d of
              Inl e \<Rightarrow> False
            | Inr (r, w3, d3) \<Rightarrow>
                r \<and> (case Worklist_add ds3 t3 w3 of (i3, w4) \<Rightarrow>
                       i3 = 0 \<and> Worklist_count w4 = 2))))
   \<and> (w = fst (Worklist_run ops (Worklist_default, st, d0))
        \<and> set (map fst (indexMap w)) = {0 ..< n} \<and> 0 \<le> k \<and> k < n - 1
      \<longrightarrow>
        (Worklist_remove k w d = Inr (r, w', d')
           \<longrightarrow> r \<and> fst (Worklist_add ds now w') = k \<and> fst (Worklist_add ds now w') \<noteq> n)
        \<and> (Worklist_subscript w k = Some item
             \<and> (files d (dataFolder w @ fileName item) = None
                 \<or> dataFolder w @ fileName item \<notin> undeletable d)
           \<longrightarrow> (\<exists>w' d'. Worklist_remove k w d = Inr (True, w', d'))))"
proof (intro conjI impI)
  assume "files d (dataFolder Worklist_default @ Worklist_newFileName ''dataset'' t1) = None
      \<or> dataFolder Worklist_default @ Worklist_newFileName ''dataset'' t1 \<notin> undeletable d"
  then show "case Worklist_add ds1 t1 Worklist_default of (i1, w1) \<Rightarrow>
      case Worklist_add ds2 t2 w1 of (i2, w2) \<Rightarrow>
        i1 = 0 \<and> i2 = 1
        \<and> (case Worklist_remove 0 w2 d of
              Inl e \<Rightarrow> False
            | Inr (r, w3, d3) \<Rightarrow>
                r \<and> (case Worklist_add ds3 t3 w3 of (i3, w4) \<Rightarrow>
                       i3 = 0 \<and> Worklist_count w4 = 2))"
    by (rule recycling_scenario)
next
  assume a: "w = fst (Worklist_run ops (Worklist_default, st, d0))
        \<and> set (map fst (indexMap w)) = {0 ..< n} \<and> 0 \<le> k \<and> k < n - 1"
    and rem: "Worklist_remove k w d = Inr (r, w', d')"
  from a have wf: "indexes_wf w" by (simp add: reachable_wf)
  from a have "set (map fst (indexMap w)) = {0 ..< n}" by blast
  then have keys: "index_keys w = {0 ..< n}" by (simp add: index_keys_def)
  from a have k: "0 \<le> k" "k < n" by auto
  note rec = recycled_index_is_least [OF wf keys k rem, of ds now]
  from rec show "r" by simp
  from rec show "fst (Worklist_add ds now w') = k" by simp
  with a show "fst (Worklist_add ds now w') \<noteq> n" by simp
next
  assume "Worklist_subscript w k = Some item
             \<and> (files d (dataFolder w @ fileName item) = None
                 \<or> dataFolder w @ fileName item \<notin> undeletable d)"
  then show "\<exists>w' d'. Worklist_remove k w d = Inr (True, w', d')"
    using remove_returns_when_deletable [of w k item d] by blast
qed

theorem min_first_index_recycling_witness:
  "files \<lparr>files = Map.empty, write_protected = {}, undeletable = {}, saveFile_calls = []\<rparr>
      (dataFolder Worklist_default @ Worklist_newFileName ''dataset''
         \<lparr>date_time = ''20250101_120000'', time_of_day = ''12:00:00'', epoch_ms = 1\<rparr>) = None
   \<and> (case Worklist_add None
            \<lparr>date_time = ''20250101_120000'', time_of_day = ''12:00:00'', epoch_ms = 1\<rparr>
            Worklist_default of (i1, w1) \<Rightarrow>
       case Worklist_add None
            \<lparr>date_time = ''20250101_120000'', time_of_day = ''12:00:00'', epoch_ms = 2\<rparr>
            w1 of (i2, w2) \<Rightarrow>
        i1 = 0 \<and> i2 = 1
        \<and> (case Worklist_remove 0 w2
                  \<lparr>files = Map.empty, write_protected = {}, undeletable = {},
                   saveFile_calls = []\<rparr> of
              Inl e \<Rightarrow> False
            | Inr (r, w3, d3) \<Rightarrow>
                r \<and> (case Worklist_add None
                        \<lparr>date_time = ''20250101_120000'', time_of_day = ''12:00:00'',
                         epoch_ms = 3\<rparr> w3 of (i3, w4) \<Rightarrow>
                       i3 = 0 \<and> Worklist_count w4 = 2)))
   \<and> set (map fst (indexMap (fst (Worklist_run
        [OpAdd None \<lparr>date_time = ''20250101_120000'', time_of_day = ''12:00:00'', epoch_ms = 1\<rparr>,
         OpAdd None \<lparr>date_time = ''20250101_120000'', time_of_day = ''12:00:00'', epoch_ms = 2\<rparr>,
         OpAdd None \<lparr>date_time = ''20250101_120000'', time_of_day = ''12:00:00'', epoch_ms = 3\<rparr>]
        (Worklist_default, SCPStatus_default,
         \<lparr>files = Map.empty, write_protected = {}, undeletable = {}, saveFile_calls = []\<rparr>))))) = {0 ..< 3}
   \<and> (\<exists>w' d'. Worklist_remove 1
          (fst (Worklist_run
            [OpAdd None \<lparr>date_time = ''20250101_120000'', time_of_day = ''12:00:00'', epoch_ms = 1\<rparr>,
             OpAdd None \<lparr>date_time = ''20250101_120000'', time_of_day = ''12:00:00'', epoch_ms = 2\<rparr>,
             OpAdd None \<lparr>date_time = ''20250101_120000'', time_of_day = ''12:00:00'', epoch_ms = 3\<rparr>]
            (Worklist_default, SCPStatus_default,
             \<lparr>files = Map.empty, write_protected = {}, undeletable = {}, saveFile_calls = []\<rparr>)))
          \<lparr>files = Map.empty, write_protected = {}, undeletable = {}, saveFile_calls = []\<rparr>
            = Inr (True, w', d')
        \<and> fst (Worklist_add None
                 \<lparr>date_time = ''20250101_120001'', time_of_day = ''12:00:01'', epoch_ms = 4\<rparr>
                 w') = 1)"
proof -
  let ?t1 = "\<lparr>date_time = ''20250101_120000'', time_of_day = ''12:00:00'', epoch_ms = 1\<rparr>"
  let ?t2 = "\<lparr>date_time = ''20250101_120000'', time_of_day = ''12:00:00'', epoch_ms = 2\<rparr>"
  let ?t3 = "\<lparr>date_time = ''20250101_120000'', time_of_day = ''12:00:00'', epoch_ms = 3\<rparr>"
  let ?t4 = "\<lparr>date_time = ''20250101_120001'', time_of_day = ''12:00:01'', epoch_ms = 4\<rparr>"
  let ?d = "\<lparr>files = Map.empty, write_protected = {}, undeletable = {}, saveFile_calls = []\<rparr>"
  let ?w = "fst (Worklist_run [OpAdd None ?t1, OpAdd None ?t2, OpAdd None ?t3]
                   (Worklist_default, SCPStatus_default, ?d))"
  let ?item = "\<lparr>dataset = None, fileName = Worklist_newFileName ''dataset'' ?t2, dirty = True\<rparr>"
  have nofile: "files ?d (dataFolder Worklist_default @ Worklist_newFileName ''dataset'' ?t1) = None"
    by simp
  have keys: "set (map fst (indexMap ?w)) = {0 ..< 3}"
    by (auto simp: Worklist_add_def Worklist_getFreeIndex_def Worklist_default_def Let_def)
  have item: "Worklist_subscript ?w 1 = Some ?item"
    by (simp add: Worklist_subscript_def Worklist_add_def Worklist_getFreeIndex_def
        Worklist_default_def Let_def)
  note inst = min_first_index_recycling
    [where w = ?w and ops = "[OpAdd None ?t1, OpAdd None ?t2, OpAdd None ?t3]"
      and st = SCPStatus_default and ?d0.0 = ?d and n = 3 and k = 1 and d = ?d and ds = None
      and now = ?t4 and ?t1.0 = ?t1 and ?t2.0 = ?t2 and ?t3.0 = ?t3 and ?ds1.0 = None
      and ?ds2.0 = None and ?ds3.0 = None and item = ?item]
  have hyp: "?w = fst (Worklist_run [OpAdd None ?t1, OpAdd None ?t2, OpAdd None ?t3]
                         (Worklist_default, SCPStatus_default, ?d))
        \<and> set (map fst (indexMap ?w)) = {0 ..< 3} \<and> (0::int) \<le> 1 \<and> (1::int) < 3 - 1"
    by (intro conjI refl keys) simp_all
  note gen = inst [THEN conjunct2, THEN mp, OF hyp]
  have hyp2: "Worklist_subscript ?w 1 = Some ?item
        \<and> (files ?d (dataFolder ?w @ fileName ?item) = None
            \<or> dataFolder ?w @ fileName ?item \<notin> undeletable ?d)"
    by (intro conjI item disjI1) simp
  from gen [THEN conjunct2, THEN mp, OF hyp2]
  obtain w' d' where rem: "Worklist_remove 1 ?w ?d = Inr (True, w', d')"
    by blast
  from gen [THEN conjunct1, THEN mp, OF rem]
  have "fst (Worklist_add None ?t4 w') = 1" by blast
  with rem have "\<exists>w' d'. Worklist_remove 1 ?w ?d = Inr (True, w', d')
        \<and> fst (Worklist_add None ?t4 w') = 1"
    by blast
  moreover from inst [THEN conjunct1, THEN mp, OF disjI1, OF nofile]
  have "case Worklist_add None ?t1 Worklist_default of (i1, w1) \<Rightarrow>
       case Worklist_add None ?t2 w1 of (i2, w2) \<Rightarrow>
        i1 = 0 \<and> i2 = 1
        \<and> (case Worklist_remove 0 w2 ?d of
              Inl e \<Rightarrow> False
            | Inr (r, w3, d3) \<Rightarrow>
                r \<and> (case Worklist_add None ?t3 w3 of (i3, w4) \<Rightarrow>
                       i3 = 0 \<and> Worklist_count w4 = 2))" .
  ultimately show ?thesis using nofile keys by blast
qed

section \<open>The facade and the query hook\<close>

lemma example_server_eq:
  "example_server =
     \<lparr>templateFile = [], serverStatus = SCPStatus_default, datasets = Worklist_default,
      disk = example_disk, scp = example_scp\<rparr>"
  by (simp add: example_server_def DICOMWorklistSCP_ctor_def loadAllDatasets_def
      Worklist_loadAllDatasets_def ScopedStatus_ctor_def ScopedStatus_dtor_def
      SCPStatus_default_def)

lemma add_keys:
  "index_keys (snd (Worklist_add ds now w))
     = insert (fst (Worklist_getFreeIndex w)) (index_keys w)"
  by (simp add: Worklist_add_def Worklist_getFreeIndex_def Let_def index_keys_def dom_update)

text \<open>
  C8. The handler adds one to the request count on every call (the count is a 32-bit
  \<^verbatim>\<open>int\<close>: the model wraps it) and changes nothing else. With no message it returns the
  illegal-call condition. For a C-FIND request it sends one response with the success
  status, no data set, the message id and the affected SOP class of the request; the
  datasets and the disk play no part in it. Any other message goes to the handler of the
  base class as it came, with the same context.
\<close>

theorem query_hook_behaviour:
  "snd (handleIncomingCommand m presInfo s)
      = s\<lparr>serverStatus := (serverStatus s)\<lparr>requestCount := requestCount (serverStatus s) + 1\<rparr>\<rparr>
   \<and> fst (handleIncomingCommand None presInfo s) = Return_EC_IllegalCall
   \<and> fst (handleIncomingCommand (Some (DIMSE_C_FIND_RQ request)) presInfo s)
      = Return_sendDIMSEMessage (presentationContextID presInfo)
          (DIMSE_C_FIND_RSP
             \<lparr>rsp_MessageIDBeingRespondedTo = rq_MessageID request,
              rsp_AffectedSOPClassUID = rq_AffectedSOPClassUID request,
              rsp_DimseStatus = STATUS_Success,
              rsp_DataSetType = DIMSE_DATASET_NULL\<rparr>)
          None
   \<and> fst (handleIncomingCommand (Some (DIMSE_C_FIND_RSP rsp)) presInfo s)
      = Return_DcmSCP_handleIncomingCommand (DIMSE_C_FIND_RSP rsp) presInfo
   \<and> fst (handleIncomingCommand (Some (DIMSE_other code body)) presInfo s)
      = Return_DcmSCP_handleIncomingCommand (DIMSE_other code body) presInfo
   \<and> fst (handleIncomingCommand m presInfo (s\<lparr>datasets := w, disk := d\<rparr>))
      = fst (handleIncomingCommand m presInfo s)
   \<and> datasets (snd (handleIncomingCommand m presInfo s)) = datasets s
   \<and> disk (snd (handleIncomingCommand m presInfo s)) = disk s"
  by (simp add: handleIncomingCommand_def Let_def split: option.splits T_DIMSE_Message.splits)

text \<open>
  C9. A redundant call changes nothing that matters. On a running server \<open>start\<close>
  returns true and leaves the whole state as it was: nothing is configured and no port is
  opened. On a server that is not running \<open>stop\<close> returns true; the running flag, the
  base class, the datasets and the disk are as before, and the status text is \<open>Idle\<close>.
\<close>

theorem lifecycle_idempotence:
  "(isRunning (serverStatus s) \<longrightarrow> start listen_ok s = (True, s))
   \<and> (\<not> isRunning (serverStatus s) \<longrightarrow>
        stop s = (True, s\<lparr>serverStatus := (serverStatus s)\<lparr>statusText := ''Idle''\<rparr>\<rparr>)
        \<and> isRunning (serverStatus (snd (stop s))) = isRunning (serverStatus s)
        \<and> scp (snd (stop s)) = scp s)"
  by (simp add: start_def stop_def ScopedStatus_ctor_def ScopedStatus_dtor_def)

theorem lifecycle_idempotence_witness:
  "isRunning (serverStatus (snd (start True example_server)))
   \<and> start False (snd (start True example_server)) = (True, snd (start True example_server))
   \<and> \<not> isRunning (serverStatus example_server)
   \<and> fst (stop example_server)
   \<and> \<not> isRunning (serverStatus (snd (stop example_server)))
   \<and> scp (snd (stop example_server)) = example_scp"
proof -
  have r: "isRunning (serverStatus (snd (start True example_server)))"
    by (simp add: example_server_eq start_def ScopedStatus_ctor_def ScopedStatus_dtor_def
        ScopedStatus_changeStatus_def SCPStatus_default_def Let_def)
  have n: "\<not> isRunning (serverStatus example_server)"
    by (simp add: example_server_eq SCPStatus_default_def)
  from r lifecycle_idempotence [of "snd (start True example_server)" False]
  have "start False (snd (start True example_server)) = (True, snd (start True example_server))"
    by simp
  moreover from n lifecycle_idempotence [of example_server True]
  have "fst (stop example_server) \<and> \<not> isRunning (serverStatus (snd (stop example_server)))
        \<and> scp (snd (stop example_server)) = scp example_server"
    by simp
  ultimately show ?thesis using r n by (simp add: example_server_eq)
qed

text \<open>
  C6. With a null output parameter \<open>getDatasetCount\<close> returns false and leaves the whole state,
  error log included, as it was. \<open>addDataset\<close> has no such check: it adds the new item to
  the store and then writes the index through the null pointer, so it never returns.
\<close>

theorem null_output_parameter:
  "getDatasetCount nullptr s = (False, None, s)
   \<and> (\<exists>s'. addDataset nullptr now s = Inl (NullPointerWrite s')
          \<and> set (map fst (indexMap (datasets s')))
            = insert (fst (Worklist_getFreeIndex (datasets s)))
                (set (map fst (indexMap (datasets s)))))"
proof
  show "getDatasetCount nullptr s = (False, None, s)"
    by (simp add: getDatasetCount_def)
next
  let ?ds = "Some (if templateFile s \<noteq> [] then
                    (case loadFile (templateFile s) (disk s) of
                       Some t \<Rightarrow> t
                     | None \<Rightarrow> DcmDataset [])
                  else DcmDataset [])"
  obtain i w' where add: "Worklist_add ?ds now (datasets s) = (i, w')" by force
  have "index_keys (snd (Worklist_add ?ds now (datasets s)))
          = insert (fst (Worklist_getFreeIndex (datasets s))) (index_keys (datasets s))"
    by (rule add_keys)
  with add have keys: "set (map fst (indexMap w'))
          = insert (fst (Worklist_getFreeIndex (datasets s)))
              (set (map fst (indexMap (datasets s))))"
    by (simp add: index_keys_def)
  from add have "addDataset nullptr now s
      = Inl (NullPointerWrite (s\<lparr>datasets := w',
               serverStatus := snd (ScopedStatus_ctor (serverStatus s) ''Adding a dataset'' ''None'')\<rparr>))"
    by (simp add: addDataset_def Let_def split: prod.splits)
  with keys show "\<exists>s'. addDataset nullptr now s = Inl (NullPointerWrite s')
          \<and> set (map fst (indexMap (datasets s')))
            = insert (fst (Worklist_getFreeIndex (datasets s)))
                (set (map fst (indexMap (datasets s))))"
    by simp
qed

section \<open>The request count\<close>

text \<open>Recording an error, and so every loop that records errors, changes the log only.\<close>

lemma SCPStatus_error_frame:
  "isRunning (SCPStatus_error now m st) = isRunning st"
  "requestCount (SCPStatus_error now m st) = requestCount st"
  "statusText (SCPStatus_error now m st) = statusText st"
  by (simp_all add: SCPStatus_error_def)

lemma clear_loop_frame:
  "case clear_loop folder now items st d of
     Inl (e, st', d') \<Rightarrow>
       isRunning st' = isRunning st \<and> requestCount st' = requestCount st
         \<and> statusText st' = statusText st
   | Inr (st', d') \<Rightarrow>
       isRunning st' = isRunning st \<and> requestCount st' = requestCount st
         \<and> statusText st' = statusText st"
  by (induction folder now items st d rule: clear_loop.induct)
     (auto simp: Let_def SCPStatus_error_frame
        split: if_splits sum.splits prod.splits bool.splits)

lemma loadAllDatasets_loop_frame:
  "loadAllDatasets_loop now d entries w st n = (w', st', n')
     \<Longrightarrow> isRunning st' = isRunning st \<and> requestCount st' = requestCount st
         \<and> statusText st' = statusText st"
  by (induction now d entries w st n rule: loadAllDatasets_loop.induct)
     (auto simp: SCPStatus_error_frame split: if_splits prod.splits option.splits)

lemma saveAll_body_frame:
  "saveAll_body folder now item st d b = (item', st', d', b')
     \<Longrightarrow> isRunning st' = isRunning st \<and> requestCount st' = requestCount st
         \<and> statusText st' = statusText st"
  by (auto simp: saveAll_body_def SCPStatus_error_frame
      split: option.splits prod.splits bool.splits)

lemma saveDirty_body_frame:
  "saveDirty_body folder now item st d b = (item', st', d', b')
     \<Longrightarrow> isRunning st' = isRunning st \<and> requestCount st' = requestCount st
         \<and> statusText st' = statusText st"
  by (auto simp: saveDirty_body_def SCPStatus_error_frame
      split: option.splits prod.splits bool.splits if_splits)

lemma saveAll_loop_frame:
  "saveAll_loop folder now items st d b = (items', st', d', b')
     \<Longrightarrow> isRunning st' = isRunning st \<and> requestCount st' = requestCount st
         \<and> statusText st' = statusText st"
proof (induction items arbitrary: st d b items' st' d' b')
  case Nil
  then show ?case by simp
next
  case (Cons p rest)
  obtain idx item where p: "p = (idx, item)" by force
  obtain item1 st1 d1 b1 where body: "saveAll_body folder now item st d b = (item1, st1, d1, b1)"
    by (metis prod_cases4)
  obtain rest2 st2 d2 b2 where loop: "saveAll_loop folder now rest st1 d1 b1 = (rest2, st2, d2, b2)"
    by (metis prod_cases4)
  from Cons.prems p body loop have "st' = st2" by simp
  with Cons.IH [OF loop] saveAll_body_frame [OF body] show ?case by simp
qed

lemma saveDirty_loop_frame:
  "saveDirty_loop folder now items st d b = (items', st', d', b')
     \<Longrightarrow> isRunning st' = isRunning st \<and> requestCount st' = requestCount st
         \<and> statusText st' = statusText st"
proof (induction items arbitrary: st d b items' st' d' b')
  case Nil
  then show ?case by simp
next
  case (Cons p rest)
  obtain idx item where p: "p = (idx, item)" by force
  obtain item1 st1 d1 b1 where body: "saveDirty_body folder now item st d b = (item1, st1, d1, b1)"
    by (metis prod_cases4)
  obtain rest2 st2 d2 b2 where loop: "saveDirty_loop folder now rest st1 d1 b1 = (rest2, st2, d2, b2)"
    by (metis prod_cases4)
  from Cons.prems p body loop have "st' = st2" by simp
  with Cons.IH [OF loop] saveDirty_body_frame [OF body] show ?case by simp
qed

lemma saveDatasetInFile_frame:
  "Worklist_saveDatasetInFile index now w st d = (r, w', st', d')
     \<Longrightarrow> isRunning st' = isRunning st \<and> requestCount st' = requestCount st
         \<and> statusText st' = statusText st"
  by (auto simp: Worklist_saveDatasetInFile_def SCPStatus_error_frame
      split: option.splits prod.splits bool.splits)

text \<open>
  C7. Every call of the facade is to add one to the request count, through the guard it
  runs in. The constructor of the guard saves the status text and sets it, and that is all:
  it does not touch the count, although its comment says that it increments the request
  counter. So no function of the facade changes the count, however it ends; \<open>getStatus\<close>
  does not even use the guard. On the freshly constructed server, whose count is 0,
  \<open>addDataset\<close> with a valid pointer returns true and the count is still 0, where it is
  to be 1. The handler of the network layer alone writes the count, and its increment of a
  32-bit \<^verbatim>\<open>int\<close> overflows at the largest value: in the model it wraps to the least.
\<close>

theorem facade_calls_leave_request_count:
  "requestCount (snd (ScopedStatus_ctor status actionName finalText)) = requestCount status
   \<and> requestCount (serverStatus (snd (setTemplateFile name s))) = requestCount (serverStatus s)
   \<and> (case addDataset p now s of
         Inl c \<Rightarrow> requestCount (serverStatus (crash_state c)) = requestCount (serverStatus s)
       | Inr (r, v, s') \<Rightarrow> requestCount (serverStatus s') = requestCount (serverStatus s))
   \<and> (case deleteDataset index s of
         Inl c \<Rightarrow> requestCount (serverStatus (crash_state c)) = requestCount (serverStatus s)
       | Inr (r, s') \<Rightarrow> requestCount (serverStatus s') = requestCount (serverStatus s))
   \<and> requestCount (serverStatus (snd (snd (getDatasetCount p s)))) = requestCount (serverStatus s)
   \<and> requestCount (serverStatus (snd (getDataset index s))) = requestCount (serverStatus s)
   \<and> (case clearAllDatasets now s of
         Inl c \<Rightarrow> requestCount (serverStatus (crash_state c)) = requestCount (serverStatus s)
       | Inr (r, s') \<Rightarrow> requestCount (serverStatus s') = requestCount (serverStatus s))
   \<and> requestCount (serverStatus (snd (start listen_ok s))) = requestCount (serverStatus s)
   \<and> requestCount (serverStatus (snd (stop s))) = requestCount (serverStatus s)
   \<and> requestCount (serverStatus (snd (snd (getStatus s)))) = requestCount (serverStatus s)
   \<and> requestCount (serverStatus (snd (markDatasetDirty index s))) = requestCount (serverStatus s)
   \<and> requestCount (serverStatus (snd (saveDirtyDatasets now s))) = requestCount (serverStatus s)
   \<and> requestCount (serverStatus (snd (saveDataset index now s))) = requestCount (serverStatus s)
   \<and> requestCount (serverStatus (snd (saveAllDatasets now s))) = requestCount (serverStatus s)
   \<and> requestCount (serverStatus (snd (loadAllDatasets now entries s)))
        = requestCount (serverStatus s)
   \<and> requestCount (serverStatus example_server) = 0
   \<and> (case addDataset valid_ptr example_time example_server of
         Inl c \<Rightarrow> False
       | Inr (r, v, s') \<Rightarrow> r \<and> requestCount (serverStatus s') = 0)
   \<and> sint (requestCount (serverStatus (snd (handleIncomingCommand m presInfo
              (s\<lparr>serverStatus := (serverStatus s)\<lparr>requestCount := 2147483647\<rparr>\<rparr>)))))
        = - 2147483648"
proof (intro conjI)
  show "requestCount (snd (ScopedStatus_ctor status actionName finalText)) = requestCount status"
    by (simp add: ScopedStatus_ctor_def)
  show "requestCount (serverStatus (snd (setTemplateFile name s))) = requestCount (serverStatus s)"
    by (simp add: setTemplateFile_def ScopedStatus_ctor_def ScopedStatus_dtor_def)
  show "case addDataset p now s of
         Inl c \<Rightarrow> requestCount (serverStatus (crash_state c)) = requestCount (serverStatus s)
       | Inr (r, v, s') \<Rightarrow> requestCount (serverStatus s') = requestCount (serverStatus s)"
    by (cases p)
       (simp_all add: addDataset_def Let_def ScopedStatus_ctor_def ScopedStatus_dtor_def
          split: prod.splits)
  show "case deleteDataset index s of
         Inl c \<Rightarrow> requestCount (serverStatus (crash_state c)) = requestCount (serverStatus s)
       | Inr (r, s') \<Rightarrow> requestCount (serverStatus s') = requestCount (serverStatus s)"
    by (simp add: deleteDataset_def ScopedStatus_ctor_def ScopedStatus_dtor_def
        split: sum.splits prod.splits)
  show "requestCount (serverStatus (snd (snd (getDatasetCount p s))))
          = requestCount (serverStatus s)"
    by (cases p)
       (simp_all add: getDatasetCount_def ScopedStatus_ctor_def ScopedStatus_dtor_def)
  show "requestCount (serverStatus (snd (getDataset index s))) = requestCount (serverStatus s)"
    by (simp add: getDataset_def ScopedStatus_ctor_def ScopedStatus_dtor_def)
  show "case clearAllDatasets now s of
         Inl c \<Rightarrow> requestCount (serverStatus (crash_state c)) = requestCount (serverStatus s)
       | Inr (r, s') \<Rightarrow> requestCount (serverStatus s') = requestCount (serverStatus s)"
    using clear_loop_frame
      [where folder = "dataFolder (datasets s)" and now = now
        and items = "indexMap (datasets s)"
        and st = "snd (ScopedStatus_ctor (serverStatus s) ''Clearing the list'' ''None'')"
        and d = "disk s"]
    by (auto simp: clearAllDatasets_def Worklist_clear_def ScopedStatus_ctor_def
        ScopedStatus_dtor_def split: sum.splits prod.splits)
  show "requestCount (serverStatus (snd (start listen_ok s))) = requestCount (serverStatus s)"
    by (simp add: start_def Let_def ScopedStatus_ctor_def ScopedStatus_dtor_def
        ScopedStatus_changeStatus_def)
  show "requestCount (serverStatus (snd (stop s))) = requestCount (serverStatus s)"
    by (simp add: stop_def ScopedStatus_ctor_def ScopedStatus_dtor_def)
  show "requestCount (serverStatus (snd (snd (getStatus s)))) = requestCount (serverStatus s)"
    by (simp add: getStatus_def SCPStatus_ToString_def)
  show "requestCount (serverStatus (snd (markDatasetDirty index s)))
          = requestCount (serverStatus s)"
    by (simp add: markDatasetDirty_def ScopedStatus_ctor_def ScopedStatus_dtor_def
        split: prod.splits)
  show "requestCount (serverStatus (snd (saveDirtyDatasets now s)))
          = requestCount (serverStatus s)"
    by (auto simp: saveDirtyDatasets_def Worklist_saveDirtyDatasetsInFile_def
        ScopedStatus_ctor_def ScopedStatus_dtor_def split: prod.splits
        dest: saveDirty_loop_frame)
  show "requestCount (serverStatus (snd (saveDataset index now s)))
          = requestCount (serverStatus s)"
    by (auto simp: saveDataset_def ScopedStatus_ctor_def ScopedStatus_dtor_def
        split: prod.splits dest: saveDatasetInFile_frame)
  show "requestCount (serverStatus (snd (saveAllDatasets now s)))
          = requestCount (serverStatus s)"
    by (auto simp: saveAllDatasets_def Worklist_saveAllDatasetsInFile_def
        ScopedStatus_ctor_def ScopedStatus_dtor_def split: prod.splits
        dest: saveAll_loop_frame)
  show "requestCount (serverStatus (snd (loadAllDatasets now entries s)))
          = requestCount (serverStatus s)"
    by (auto simp: loadAllDatasets_def Worklist_loadAllDatasets_def
        ScopedStatus_ctor_def ScopedStatus_dtor_def split: prod.splits
        dest: loadAllDatasets_loop_frame)
  show "requestCount (serverStatus example_server) = 0"
    by (simp add: example_server_eq SCPStatus_default_def)
  show "case addDataset valid_ptr example_time example_server of
         Inl c \<Rightarrow> False
       | Inr (r, v, s') \<Rightarrow> r \<and> requestCount (serverStatus s') = 0"
    by (simp add: example_server_eq addDataset_def Let_def ScopedStatus_ctor_def
        ScopedStatus_dtor_def SCPStatus_default_def split: prod.splits)
  show "sint (requestCount (serverStatus (snd (handleIncomingCommand m presInfo
              (s\<lparr>serverStatus := (serverStatus s)\<lparr>requestCount := 2147483647\<rparr>\<rparr>)))))
        = - 2147483648"
    by (simp add: handleIncomingCommand_def Let_def
        split: option.splits T_DIMSE_Message.splits)
qed

section \<open>Saving and the dirty flag\<close>

lemma saveFile_result:
  "saveFile path ds d = (ok, d')
     \<Longrightarrow> ok = (path \<notin> write_protected d)
         \<and> write_protected d' = write_protected d
         \<and> saveFile_calls d' = saveFile_calls d @ [(path, ds)]
         \<and> files d' = (if ok then (files d)(path \<mapsto> DicomFile ds) else files d)"
  by (auto simp: saveFile_def Let_def split: if_splits)

text \<open>What one turn of the loop of \<^verbatim>\<open>saveDirtyDatasetsInFile\<close> does.\<close>

lemma saveDirty_body_result:
  assumes "saveDirty_body folder now item st d b = (item', st', d', b')"
  shows "item' = (if dataset item \<noteq> None \<and> dirty item
                     \<and> folder @ fileName item \<notin> write_protected d
                  then item\<lparr>dirty := False\<rparr> else item)"
    and "write_protected d' = write_protected d"
    and "saveFile_calls d' = saveFile_calls d @
           (case dataset item of
              Some ds \<Rightarrow> if dirty item then [(folder @ fileName item, ds)] else []
            | None \<Rightarrow> [])"
    and "b' = (b \<and> (dataset item = None \<or> \<not> dirty item
                     \<or> folder @ fileName item \<notin> write_protected d))"
    and "dataset item = None \<or> \<not> dirty item \<or> p \<noteq> folder @ fileName item
           \<Longrightarrow> files d' p = files d p"
  using assms
  by (auto simp: saveDirty_body_def split: option.splits if_splits prod.splits bool.splits
      dest!: saveFile_result)

lemma saveAll_body_result:
  assumes "saveAll_body folder now item st d b = (item', st', d', b')"
  shows "item' = (if dataset item \<noteq> None \<and> folder @ fileName item \<notin> write_protected d
                  then item\<lparr>dirty := False\<rparr> else item)"
    and "write_protected d' = write_protected d"
    and "b' = (b \<and> (dataset item = None \<or> folder @ fileName item \<notin> write_protected d))"
  using assms
  by (auto simp: saveAll_body_def split: option.splits if_splits prod.splits bool.splits
      dest!: saveFile_result)

lemma saveDirty_loop_result:
  "saveDirty_loop folder now items st d b = (items', st', d', b')
     \<Longrightarrow> items' = map (\<lambda>(i, item).
             (i, if dataset item \<noteq> None \<and> dirty item
                    \<and> folder @ fileName item \<notin> write_protected d
                 then item\<lparr>dirty := False\<rparr> else item)) items
         \<and> write_protected d' = write_protected d
         \<and> saveFile_calls d' = saveFile_calls d @
               concat (map (\<lambda>(i, item).
                  case dataset item of
                    Some ds \<Rightarrow> if dirty item then [(folder @ fileName item, ds)] else []
                  | None \<Rightarrow> []) items)
         \<and> b' = (b \<and> list_all (\<lambda>(i, item). dataset item = None \<or> \<not> dirty item
                     \<or> folder @ fileName item \<notin> write_protected d) items)"
proof (induction items arbitrary: st d b items' st' d' b')
  case Nil
  then show ?case by simp
next
  case (Cons p rest)
  obtain idx item where p: "p = (idx, item)" by force
  obtain item1 st1 d1 b1 where body: "saveDirty_body folder now item st d b = (item1, st1, d1, b1)"
    by (metis prod_cases4)
  obtain rest2 st2 d2 b2 where loop: "saveDirty_loop folder now rest st1 d1 b1 = (rest2, st2, d2, b2)"
    by (metis prod_cases4)
  from Cons.prems p body loop
  have res: "items' = (idx, item1) # rest2" "d' = d2" "b' = b2" by simp_all
  note ih = Cons.IH [OF loop]
  note bd = saveDirty_body_result [OF body]
  show ?case
    unfolding res p using ih bd(1-4) by (simp add: conj_assoc)
qed

lemma saveDirty_loop_files:
  "saveDirty_loop folder now items st d b = (items', st', d', b')
     \<Longrightarrow> list_all (\<lambda>(i, item). dataset item = None \<or> \<not> dirty item
                        \<or> p \<noteq> folder @ fileName item) items
     \<Longrightarrow> files d' p = files d p"
proof (induction items arbitrary: st d b items' st' d' b')
  case Nil
  then show ?case by simp
next
  case (Cons q rest)
  obtain idx item where q: "q = (idx, item)" by force
  obtain item1 st1 d1 b1 where body: "saveDirty_body folder now item st d b = (item1, st1, d1, b1)"
    by (metis prod_cases4)
  obtain rest2 st2 d2 b2 where loop: "saveDirty_loop folder now rest st1 d1 b1 = (rest2, st2, d2, b2)"
    by (metis prod_cases4)
  from Cons.prems(1) q body loop have res: "d' = d2" by simp
  from Cons.prems(2) q have here: "dataset item = None \<or> \<not> dirty item \<or> p \<noteq> folder @ fileName item"
    and there: "list_all (\<lambda>(i, item). dataset item = None \<or> \<not> dirty item
                        \<or> p \<noteq> folder @ fileName item) rest"
    by simp_all
  have "files d2 p = files d1 p" using loop there by (rule Cons.IH)
  also have "files d1 p = files d p" using body here by (rule saveDirty_body_result(5))
  finally show ?case unfolding res .
qed

lemma saveAll_loop_result:
  "saveAll_loop folder now items st d b = (items', st', d', b')
     \<Longrightarrow> items' = map (\<lambda>(i, item).
             (i, if dataset item \<noteq> None \<and> folder @ fileName item \<notin> write_protected d
                 then item\<lparr>dirty := False\<rparr> else item)) items
         \<and> write_protected d' = write_protected d
         \<and> b' = (b \<and> list_all (\<lambda>(i, item). dataset item = None
                     \<or> folder @ fileName item \<notin> write_protected d) items)"
proof (induction items arbitrary: st d b items' st' d' b')
  case Nil
  then show ?case by simp
next
  case (Cons p rest)
  obtain idx item where p: "p = (idx, item)" by force
  obtain item1 st1 d1 b1 where body: "saveAll_body folder now item st d b = (item1, st1, d1, b1)"
    by (metis prod_cases4)
  obtain rest2 st2 d2 b2 where loop: "saveAll_loop folder now rest st1 d1 b1 = (rest2, st2, d2, b2)"
    by (metis prod_cases4)
  from Cons.prems p body loop
  have res: "items' = (idx, item1) # rest2" "d' = d2" "b' = b2" by simp_all
  note ih = Cons.IH [OF loop]
  note bd = saveAll_body_result [OF body]
  show ?case
    unfolding res p using ih bd by (simp add: conj_assoc)
qed

lemma map_of_map_item:
  "map_of (map (\<lambda>(i, item). (i, f item)) items) k = map_option f (map_of items k)"
  by (induction items) auto

text \<open>The facade keeps a dataset in every item.\<close>

lemma list_all_update:
  "P (k, v) \<Longrightarrow> list_all P al \<Longrightarrow> list_all P (AList.update k v al)"
  by (induction al) auto

lemma list_all_delete:
  "list_all P al \<Longrightarrow> list_all P (AList.delete k al)"
  by (induction al) auto

lemma records_present_lookup:
  assumes "records_present w" and "map_of (indexMap w) i = Some item"
  shows "dataset item \<noteq> None"
proof -
  from assms(2) have "(i, item) \<in> set (indexMap w)" by (rule map_of_SomeD)
  with assms(1) have "dataset (snd (i, item)) \<noteq> None"
    unfolding records_present_def list_all_iff by blast
  then show ?thesis by simp
qed

lemma records_present_map:
  "list_all (\<lambda>p. dataset (snd p) \<noteq> None) items
     \<Longrightarrow> list_all (\<lambda>p. dataset (snd p) \<noteq> None)
           (map (\<lambda>(i, item). (i, if c item then item\<lparr>dirty := False\<rparr> else item)) items)"
  by (induction items) auto

lemma getFreeIndex_indexMap:
  "Worklist_getFreeIndex w = (i, w') \<Longrightarrow> indexMap w' = indexMap w"
  by (auto simp: Worklist_getFreeIndex_def split: if_splits)

lemma add_records_present:
  "records_present w \<Longrightarrow> Worklist_add (Some ds) now w = (i, w') \<Longrightarrow> records_present w'"
  by (auto simp: Worklist_add_def Let_def records_present_def split: prod.splits
      dest!: getFreeIndex_indexMap intro!: list_all_update)

lemma remove_records_present:
  "records_present w \<Longrightarrow> Worklist_remove index w d = Inr (r, w', d')
     \<Longrightarrow> records_present w'"
  by (auto simp: records_present_def dest!: Worklist_remove_returns intro!: list_all_delete)

lemma markDatasetDirty_records_present:
  assumes "records_present w" and "Worklist_markDatasetDirty index w = (r, w')"
  shows "records_present w'"
proof (cases "map_of (indexMap w) index")
  case None
  with assms show ?thesis by (simp add: Worklist_markDatasetDirty_def Worklist_subscript_def)
next
  case (Some item)
  with assms(1) have "dataset item \<noteq> None" by (rule records_present_lookup)
  with assms Some show ?thesis
    by (auto simp: Worklist_markDatasetDirty_def Worklist_subscript_def records_present_def
        intro!: list_all_update)
qed

lemma loadAllDatasets_loop_records_present:
  "records_present w \<Longrightarrow> loadAllDatasets_loop now d entries w st n = (w', r)
     \<Longrightarrow> records_present w'"
proof (induction entries arbitrary: w st n)
  case Nil
  then show ?case by simp
next
  case (Cons entry rest)
  show ?case
  proof (cases "is_regular_file entry")
    case False
    with Cons.prems Cons.IH [of w st n] show ?thesis by simp
  next
    case True
    show ?thesis
    proof (cases "loadFile (dataFolder w @ filename entry) d")
      case None
      with True Cons.prems Cons.IH [OF Cons.prems(1)] show ?thesis by simp
    next
      case (Some ds)
      obtain i w1 where g: "Worklist_getFreeIndex w = (i, w1)" by force
      let ?w = "w1\<lparr>indexMap := AList.update i
                   \<lparr>dataset = Some ds, fileName = filename entry, dirty = False\<rparr> (indexMap w1)\<rparr>"
      have "records_present ?w"
        using Cons.prems(1) getFreeIndex_indexMap [OF g]
        by (auto simp: records_present_def intro!: list_all_update)
      moreover from True Some g Cons.prems(2)
      have "loadAllDatasets_loop now d rest ?w st (Suc n) = (w', r)" by simp
      ultimately show ?thesis by (rule Cons.IH)
    qed
  qed
qed

lemma saveDatasetInFile_records_present:
  assumes "records_present w" and "Worklist_saveDatasetInFile index now w st d = (r, w', st', d')"
  shows "records_present w'"
proof (cases "map_of (indexMap w) index")
  case None
  with assms show ?thesis by (simp add: Worklist_saveDatasetInFile_def Worklist_subscript_def)
next
  case (Some item)
  with assms(1) have "dataset item \<noteq> None" by (rule records_present_lookup)
  with assms Some show ?thesis
    by (auto simp: Worklist_saveDatasetInFile_def Worklist_subscript_def records_present_def
        split: prod.splits bool.splits intro!: list_all_update)
qed

lemma saveAll_records_present:
  assumes "records_present w" and "Worklist_saveAllDatasetsInFile now w st d = (r, w', st', d')"
  shows "records_present w'"
proof -
  obtain items st1 d1 b where loop:
    "saveAll_loop (dataFolder w) now (indexMap w) st d True = (items, st1, d1, b)"
    by (metis prod_cases4)
  with assms(2) have w': "w' = w\<lparr>indexMap := items\<rparr>"
    by (simp add: Worklist_saveAllDatasetsInFile_def)
  from saveAll_loop_result [OF loop]
  have items: "items = map (\<lambda>(i, item).
             (i, if dataset item \<noteq> None \<and> dataFolder w @ fileName item \<notin> write_protected d
                 then item\<lparr>dirty := False\<rparr> else item)) (indexMap w)"
    by simp
  from assms(1) have "list_all (\<lambda>p. dataset (snd p) \<noteq> None) items"
    unfolding items records_present_def by (rule records_present_map)
  then show ?thesis unfolding w' records_present_def by simp
qed

lemma saveDirty_records_present:
  assumes "records_present w" and "Worklist_saveDirtyDatasetsInFile now w st d = (r, w', st', d')"
  shows "records_present w'"
proof -
  obtain items st1 d1 b where loop:
    "saveDirty_loop (dataFolder w) now (indexMap w) st d True = (items, st1, d1, b)"
    by (metis prod_cases4)
  with assms(2) have w': "w' = w\<lparr>indexMap := items\<rparr>"
    by (simp add: Worklist_saveDirtyDatasetsInFile_def)
  from saveDirty_loop_result [OF loop]
  have items: "items = map (\<lambda>(i, item).
             (i, if dataset item \<noteq> None \<and> dirty item
                    \<and> dataFolder w @ fileName item \<notin> write_protected d
                 then item\<lparr>dirty := False\<rparr> else item)) (indexMap w)"
    by simp
  from assms(1) have "list_all (\<lambda>p. dataset (snd p) \<noteq> None) items"
    unfolding items records_present_def by (rule records_present_map)
  then show ?thesis unfolding w' records_present_def by simp
qed

lemma server_step_records_present:
  assumes "records_present (datasets s)" and "server_step op s = Inr s'"
  shows "records_present (datasets s')"
proof (cases op)
  case (SetTemplateFile name)
  with assms show ?thesis by (auto simp: setTemplateFile_def split: prod.splits)
next
  case (AddDataset p now)
  with assms show ?thesis
    by (auto simp: addDataset_def Let_def split: prod.splits int_ptr.splits
        dest: add_records_present)
next
  case (DeleteDataset index)
  with assms show ?thesis
    by (auto simp: deleteDataset_def split: sum.splits prod.splits
        dest: remove_records_present)
next
  case (GetDatasetCount p)
  with assms show ?thesis
    by (auto simp: getDatasetCount_def split: prod.splits int_ptr.splits)
next
  case (GetDataset index)
  with assms show ?thesis by (auto simp: getDataset_def split: prod.splits)
next
  case (ClearAllDatasets now)
  with assms show ?thesis
    by (auto simp: clearAllDatasets_def Worklist_clear_def records_present_def
        split: sum.splits prod.splits)
next
  case (Start listen_ok)
  with assms show ?thesis by (auto simp: start_def Let_def split: prod.splits if_splits)
next
  case Stop
  with assms show ?thesis by (auto simp: stop_def split: prod.splits if_splits)
next
  case GetStatus
  with assms show ?thesis by (auto simp: getStatus_def split: prod.splits)
next
  case (MarkDatasetDirty index)
  with assms show ?thesis
    by (auto simp: markDatasetDirty_def split: prod.splits
        dest: markDatasetDirty_records_present)
next
  case (SaveDirtyDatasets now)
  with assms show ?thesis
    by (auto simp: saveDirtyDatasets_def split: prod.splits dest: saveDirty_records_present)
next
  case (SaveDataset index now)
  with assms show ?thesis
    by (auto simp: saveDataset_def split: prod.splits dest: saveDatasetInFile_records_present)
next
  case (SaveAllDatasets now)
  with assms show ?thesis
    by (auto simp: saveAllDatasets_def split: prod.splits dest: saveAll_records_present)
next
  case (LoadAllDatasets now entries)
  with assms show ?thesis
    by (auto simp: loadAllDatasets_def Worklist_loadAllDatasets_def split: prod.splits
        dest: loadAllDatasets_loop_records_present)
next
  case (HandleIncomingCommand m presInfo)
  with assms show ?thesis
    by (auto simp: handleIncomingCommand_def Let_def
        split: option.splits T_DIMSE_Message.splits)
qed

lemma server_run_records_present:
  "records_present (datasets s) \<Longrightarrow> server_run ops s = Inr s'
     \<Longrightarrow> records_present (datasets s')"
proof (induction ops arbitrary: s)
  case Nil
  then show ?case by simp
next
  case (Cons op ops)
  from Cons.prems(2) obtain s1 where step: "server_step op s = Inr s1"
    and run: "server_run ops s1 = Inr s'"
    by (auto split: sum.splits)
  from Cons.prems(1) step have "records_present (datasets s1)"
    by (rule server_step_records_present)
  then show ?case using run by (rule Cons.IH)
qed

lemma ctor_records_present:
  "records_present (datasets (DICOMWorklistSCP_ctor now entries d net))"
proof -
  have "records_present Worklist_default"
    by (simp add: records_present_def Worklist_default_def)
  then show ?thesis
    by (auto simp: DICOMWorklistSCP_ctor_def loadAllDatasets_def Worklist_loadAllDatasets_def
        split: prod.splits dest: loadAllDatasets_loop_records_present)
qed

lemma reachable_records_present:
  "server_run ops (DICOMWorklistSCP_ctor t0 entries d0 net) = Inr s
     \<Longrightarrow> records_present (datasets s)"
  using ctor_records_present by (rule server_run_records_present)

lemma dirty_entry_is_written:
  "(i, item) \<in> set items \<Longrightarrow> dataset item = Some ds \<Longrightarrow> dirty item
     \<Longrightarrow> (folder @ fileName item, ds)
           \<in> set (concat (map (\<lambda>(i, item).
                  case dataset item of
                    Some ds \<Rightarrow> if dirty item then [(folder @ fileName item, ds)] else []
                  | None \<Rightarrow> []) items))"
  by (induction items) auto

lemma add_then_lookup:
  "Worklist_add ds now w = (i, w')
     \<Longrightarrow> Worklist_subscript w' i
           = Some \<lparr>dataset = ds, fileName = Worklist_newFileName ''dataset'' now, dirty = True\<rparr>"
  by (auto simp: Worklist_add_def Worklist_subscript_def Let_def update_conv'
      split: prod.splits)

lemma saveDirtyDatasets_unfold:
  assumes "saveDirty_loop (dataFolder (datasets s)) now (indexMap (datasets s))
             (snd (ScopedStatus_ctor (serverStatus s) ''Saving dirty datasets'' ''None''))
             (disk s) True = (items, st2, d2, b)"
  shows "fst (saveDirtyDatasets now s) = b"
    and "indexMap (datasets (snd (saveDirtyDatasets now s))) = items"
    and "disk (snd (saveDirtyDatasets now s)) = d2"
  using assms
  by (auto simp: saveDirtyDatasets_def Worklist_saveDirtyDatasetsInFile_def
      split: prod.splits)

lemma saveAllDatasets_unfold:
  assumes "saveAll_loop (dataFolder (datasets s)) now (indexMap (datasets s))
             (snd (ScopedStatus_ctor (serverStatus s) ''Saving all datasets'' ''None''))
             (disk s) True = (items, st2, d2, b)"
  shows "fst (saveAllDatasets now s) = b"
    and "indexMap (datasets (snd (saveAllDatasets now s))) = items"
    and "disk (snd (saveAllDatasets now s)) = d2"
  using assms
  by (auto simp: saveAllDatasets_def Worklist_saveAllDatasetsInFile_def
      split: prod.splits)

lemma saveDataset_success:
  assumes "fst (saveDataset i now s)"
  shows "\<exists>item ds. Worklist_subscript (datasets s) i = Some item \<and> dataset item = Some ds
           \<and> Worklist_subscript (datasets (snd (saveDataset i now s))) i
               = Some (item\<lparr>dirty := False\<rparr>)
           \<and> files (disk (snd (saveDataset i now s)))
                (dataFolder (datasets s) @ fileName item) = Some (DicomFile ds)"
  using assms
  by (auto simp: saveDataset_def Worklist_saveDatasetInFile_def Worklist_subscript_def
      update_conv' split: prod.splits option.splits bool.splits dest!: saveFile_result)

lemma saveAllDatasets_entry:
  assumes rp: "records_present (datasets s)"
    and item: "Worklist_subscript (datasets s) i = Some item"
    and ok: "dataFolder (datasets s) @ fileName item \<notin> write_protected (disk s)"
  shows "Worklist_subscript (datasets (snd (saveAllDatasets now s))) i
           = Some (item\<lparr>dirty := False\<rparr>)"
proof -
  obtain items st2 d2 b where loop:
    "saveAll_loop (dataFolder (datasets s)) now (indexMap (datasets s))
       (snd (ScopedStatus_ctor (serverStatus s) ''Saving all datasets'' ''None''))
       (disk s) True = (items, st2, d2, b)"
    by (metis prod_cases4)
  from item have lk: "map_of (indexMap (datasets s)) i = Some item"
    by (simp add: Worklist_subscript_def)
  with rp have "dataset item \<noteq> None" by (rule records_present_lookup)
  with saveAll_loop_result [OF loop] lk ok show ?thesis
    by (simp add: Worklist_subscript_def saveAllDatasets_unfold(2) [OF loop] map_of_map_item)
qed

lemma saveDirtyDatasets_entry:
  assumes rp: "records_present (datasets s)"
    and item: "Worklist_subscript (datasets s) i = Some item"
  shows "Worklist_subscript (datasets (snd (saveDirtyDatasets now s))) i
           = Some (if dirty item
                      \<and> dataFolder (datasets s) @ fileName item \<notin> write_protected (disk s)
                   then item\<lparr>dirty := False\<rparr> else item)"
    and "\<exists>ds. dataset item = Some ds
           \<and> (dirty item \<longrightarrow>
                (dataFolder (datasets s) @ fileName item, ds)
                  \<in> set (drop (length (saveFile_calls (disk s)))
                           (saveFile_calls (disk (snd (saveDirtyDatasets now s))))))"
    and "dirty item \<and> dataFolder (datasets s) @ fileName item \<in> write_protected (disk s)
           \<Longrightarrow> \<not> fst (saveDirtyDatasets now s)"
proof -
  obtain items st2 d2 b where loop:
    "saveDirty_loop (dataFolder (datasets s)) now (indexMap (datasets s))
       (snd (ScopedStatus_ctor (serverStatus s) ''Saving dirty datasets'' ''None''))
       (disk s) True = (items, st2, d2, b)"
    by (metis prod_cases4)
  note res = saveDirty_loop_result [OF loop]
  from item have lk: "map_of (indexMap (datasets s)) i = Some item"
    by (simp add: Worklist_subscript_def)
  then have mem: "(i, item) \<in> set (indexMap (datasets s))" by (rule map_of_SomeD)
  from rp lk have "dataset item \<noteq> None" by (rule records_present_lookup)
  then obtain ds where ds: "dataset item = Some ds" by blast
  from res lk ds
  show "Worklist_subscript (datasets (snd (saveDirtyDatasets now s))) i
           = Some (if dirty item
                      \<and> dataFolder (datasets s) @ fileName item \<notin> write_protected (disk s)
                   then item\<lparr>dirty := False\<rparr> else item)"
    by (simp add: Worklist_subscript_def saveDirtyDatasets_unfold(2) [OF loop] map_of_map_item)
  have "dirty item \<longrightarrow>
          (dataFolder (datasets s) @ fileName item, ds)
            \<in> set (drop (length (saveFile_calls (disk s)))
                     (saveFile_calls (disk (snd (saveDirtyDatasets now s)))))"
    using res dirty_entry_is_written [OF mem ds, of "dataFolder (datasets s)"]
    by (simp add: saveDirtyDatasets_unfold(3) [OF loop])
  with ds show "\<exists>ds. dataset item = Some ds
           \<and> (dirty item \<longrightarrow>
                (dataFolder (datasets s) @ fileName item, ds)
                  \<in> set (drop (length (saveFile_calls (disk s)))
                           (saveFile_calls (disk (snd (saveDirtyDatasets now s))))))"
    by blast
  assume "dirty item \<and> dataFolder (datasets s) @ fileName item \<in> write_protected (disk s)"
  with mem ds have "\<not> list_all (\<lambda>(i, item). dataset item = None \<or> \<not> dirty item
                     \<or> dataFolder (datasets s) @ fileName item \<notin> write_protected (disk s))
                  (indexMap (datasets s))"
    by (auto simp: list_all_iff)
  with res show "\<not> fst (saveDirtyDatasets now s)"
    by (simp add: saveDirtyDatasets_unfold(1) [OF loop])
qed

lemma markDatasetDirty_entry:
  assumes "Worklist_subscript (datasets s) i = Some item"
  shows "fst (markDatasetDirty i s)"
    and "Worklist_subscript (datasets (snd (markDatasetDirty i s))) i
           = Some (item\<lparr>dirty := True\<rparr>)"
    and "disk (snd (markDatasetDirty i s)) = disk s"
    and "dataFolder (datasets (snd (markDatasetDirty i s))) = dataFolder (datasets s)"
  using assms
  by (simp_all add: markDatasetDirty_def Worklist_markDatasetDirty_def Worklist_subscript_def
      update_conv' split: prod.splits)

lemma markDatasetDirty_records_present_facade:
  "records_present (datasets s) \<Longrightarrow> records_present (datasets (snd (markDatasetDirty i s)))"
  using server_step_records_present [of s "MarkDatasetDirty i"] by simp


lemma example_file_name:
  "Worklist_newFileName ''dataset'' example_time = ''dataset_20250101_120000_5.dcm''"
  by (simp add: Worklist_newFileName_def example_time_def ostream_nat.simps)

text \<open>
  C3. The life of the dirty flag, in every state \<open>s\<close> that the server reaches from its
  constructor by calls that return. The item that \<open>addDataset\<close> adds is dirty. When
  \<open>saveDataset\<close> succeeds, the item is not dirty afterwards. After \<open>saveAllDatasets\<close> an item
  whose file could be written is not dirty, and after \<open>saveDirtyDatasets\<close> neither is a dirty
  item whose file could be written. \<open>markDatasetDirty\<close> on the index of an item returns true
  and makes the item dirty, and the \<open>saveDirtyDatasets\<close> that follows calls \<open>saveFile\<close> on the
  file and the dataset of that item: the item is then clean if the file could be written,
  and the call returns false if it could not.
\<close>

theorem dirty_flag_lifecycle:
  assumes reach: "server_run ops (DICOMWorklistSCP_ctor t0 entries d0 net) = Inr s"
  shows "(\<exists>j s' new. addDataset valid_ptr now s = Inr (True, Some j, s')
            \<and> Worklist_subscript (datasets s') j = Some new \<and> dirty new)
   \<and> (fst (saveDataset i now s) \<longrightarrow>
         (\<exists>saved. Worklist_subscript (datasets (snd (saveDataset i now s))) i = Some saved
             \<and> \<not> dirty saved))
   \<and> (Worklist_subscript (datasets s) i = Some item \<longrightarrow>
         (dataFolder (datasets s) @ fileName item \<notin> write_protected (disk s) \<longrightarrow>
            Worklist_subscript (datasets (snd (saveAllDatasets now s))) i
              = Some (item\<lparr>dirty := False\<rparr>))
       \<and> (dirty item \<and> dataFolder (datasets s) @ fileName item \<notin> write_protected (disk s) \<longrightarrow>
            Worklist_subscript (datasets (snd (saveDirtyDatasets now s))) i
              = Some (item\<lparr>dirty := False\<rparr>))
       \<and> fst (markDatasetDirty i s)
       \<and> Worklist_subscript (datasets (snd (markDatasetDirty i s))) i
            = Some (item\<lparr>dirty := True\<rparr>)
       \<and> (\<exists>ds. dataset item = Some ds
             \<and> (dataFolder (datasets s) @ fileName item, ds)
                 \<in> set (drop (length (saveFile_calls (disk s)))
                     (saveFile_calls
                        (disk (snd (saveDirtyDatasets now (snd (markDatasetDirty i s))))))))
       \<and> (dataFolder (datasets s) @ fileName item \<notin> write_protected (disk s) \<longrightarrow>
            Worklist_subscript
              (datasets (snd (saveDirtyDatasets now (snd (markDatasetDirty i s))))) i
              = Some (item\<lparr>dirty := False\<rparr>))
       \<and> (dataFolder (datasets s) @ fileName item \<in> write_protected (disk s) \<longrightarrow>
            \<not> fst (saveDirtyDatasets now (snd (markDatasetDirty i s)))))"
proof (intro conjI impI)
  from reach have rp: "records_present (datasets s)" by (rule reachable_records_present)
  show "\<exists>j s' new. addDataset valid_ptr now s = Inr (True, Some j, s')
            \<and> Worklist_subscript (datasets s') j = Some new \<and> dirty new"
    by (auto simp: addDataset_def Let_def split: prod.splits dest: add_then_lookup)
  show "\<exists>saved. Worklist_subscript (datasets (snd (saveDataset i now s))) i = Some saved
             \<and> \<not> dirty saved"
    if "fst (saveDataset i now s)"
    using saveDataset_success [OF that] by auto
  show "Worklist_subscript (datasets (snd (saveAllDatasets now s))) i
              = Some (item\<lparr>dirty := False\<rparr>)"
    if "Worklist_subscript (datasets s) i = Some item"
      and "dataFolder (datasets s) @ fileName item \<notin> write_protected (disk s)"
    using rp that by (rule saveAllDatasets_entry)
  show "Worklist_subscript (datasets (snd (saveDirtyDatasets now s))) i
              = Some (item\<lparr>dirty := False\<rparr>)"
    if "Worklist_subscript (datasets s) i = Some item"
      and "dirty item \<and> dataFolder (datasets s) @ fileName item \<notin> write_protected (disk s)"
    using saveDirtyDatasets_entry(1) [OF rp that(1), of now] that(2) by simp
  assume item: "Worklist_subscript (datasets s) i = Some item"
  note mark = markDatasetDirty_entry [OF item]
  let ?s1 = "snd (markDatasetDirty i s)"
  have rp1: "records_present (datasets ?s1)"
    using rp by (rule markDatasetDirty_records_present_facade)
  note after = saveDirtyDatasets_entry [OF rp1 mark(2), of now]
  show "fst (markDatasetDirty i s)" by (rule mark(1))
  show "Worklist_subscript (datasets ?s1) i = Some (item\<lparr>dirty := True\<rparr>)" by (rule mark(2))
  show "\<exists>ds. dataset item = Some ds
             \<and> (dataFolder (datasets s) @ fileName item, ds)
                 \<in> set (drop (length (saveFile_calls (disk s)))
                     (saveFile_calls (disk (snd (saveDirtyDatasets now ?s1)))))"
    using after(2) by (simp add: mark(3,4))
  show "Worklist_subscript (datasets (snd (saveDirtyDatasets now ?s1))) i
              = Some (item\<lparr>dirty := False\<rparr>)"
    if "dataFolder (datasets s) @ fileName item \<notin> write_protected (disk s)"
    using after(1) that by (simp add: mark(3,4))
  show "\<not> fst (saveDirtyDatasets now ?s1)"
    if "dataFolder (datasets s) @ fileName item \<in> write_protected (disk s)"
    using after(3) that by (simp add: mark(3,4))
qed


theorem dirty_flag_lifecycle_witness:
  "(\<exists>s. server_run [AddDataset valid_ptr example_time]
            (DICOMWorklistSCP_ctor example_time [] example_disk example_scp) = Inr s
      \<and> Worklist_subscript (datasets s) 0
          = Some \<lparr>dataset = Some (DcmDataset []),
                  fileName = ''dataset_20250101_120000_5.dcm'', dirty = True\<rparr>
      \<and> dataFolder (datasets s) @ ''dataset_20250101_120000_5.dcm''
          \<notin> write_protected (disk s)
      \<and> fst (saveDataset 0 example_time s)
      \<and> (\<exists>saved. Worklist_subscript (datasets (snd (saveDataset 0 example_time s))) 0
                    = Some saved \<and> \<not> dirty saved)
      \<and> Worklist_subscript (datasets (snd (saveAllDatasets example_time s))) 0
          = Some \<lparr>dataset = Some (DcmDataset []),
                  fileName = ''dataset_20250101_120000_5.dcm'', dirty = False\<rparr>
      \<and> Worklist_subscript (datasets (snd (saveDirtyDatasets example_time s))) 0
          = Some \<lparr>dataset = Some (DcmDataset []),
                  fileName = ''dataset_20250101_120000_5.dcm'', dirty = False\<rparr>
      \<and> fst (markDatasetDirty 0 s)
      \<and> Worklist_subscript
            (datasets (snd (saveDirtyDatasets example_time (snd (markDatasetDirty 0 s))))) 0
          = Some \<lparr>dataset = Some (DcmDataset []),
                  fileName = ''dataset_20250101_120000_5.dcm'', dirty = False\<rparr>)
   \<and> (\<exists>s. server_run [AddDataset valid_ptr example_time]
            (DICOMWorklistSCP_ctor example_time []
               (example_disk\<lparr>write_protected :=
                   {''./worklist/dataset_20250101_120000_5.dcm''}\<rparr>) example_scp) = Inr s
      \<and> Worklist_subscript (datasets s) 0
          = Some \<lparr>dataset = Some (DcmDataset []),
                  fileName = ''dataset_20250101_120000_5.dcm'', dirty = True\<rparr>
      \<and> dataFolder (datasets s) @ ''dataset_20250101_120000_5.dcm'' \<in> write_protected (disk s)
      \<and> \<not> fst (saveDirtyDatasets example_time (snd (markDatasetDirty 0 s))))"
proof (intro conjI)
  let ?item = "\<lparr>dataset = Some (DcmDataset []),
                  fileName = ''dataset_20250101_120000_5.dcm'', dirty = True\<rparr>"
  let ?w = "\<lparr>dataFolder = ''./worklist/'', indexMap = [(0, ?item)], freeIndexes = {}\<rparr>"
  let ?s = "\<lparr>templateFile = [], serverStatus = SCPStatus_default, datasets = ?w,
             disk = example_disk, scp = example_scp\<rparr>"
  let ?d = "example_disk\<lparr>write_protected := {''./worklist/dataset_20250101_120000_5.dcm''}\<rparr>"
  let ?t = "\<lparr>templateFile = [], serverStatus = SCPStatus_default, datasets = ?w,
             disk = ?d, scp = example_scp\<rparr>"
  have run: "server_run [AddDataset valid_ptr example_time]
      (DICOMWorklistSCP_ctor example_time [] example_disk example_scp) = Inr ?s"
    by (simp add: DICOMWorklistSCP_ctor_def loadAllDatasets_def Worklist_loadAllDatasets_def
        addDataset_def Let_def Worklist_add_def Worklist_getFreeIndex_def
        Worklist_default_def example_file_name ScopedStatus_ctor_def ScopedStatus_dtor_def
        SCPStatus_default_def)
  have run': "server_run [AddDataset valid_ptr example_time]
      (DICOMWorklistSCP_ctor example_time [] ?d example_scp) = Inr ?t"
    by (simp add: DICOMWorklistSCP_ctor_def loadAllDatasets_def Worklist_loadAllDatasets_def
        addDataset_def Let_def Worklist_add_def Worklist_getFreeIndex_def
        Worklist_default_def example_file_name ScopedStatus_ctor_def ScopedStatus_dtor_def
        SCPStatus_default_def)
  have item: "Worklist_subscript (datasets ?s) 0 = Some ?item"
    and item': "Worklist_subscript (datasets ?t) 0 = Some ?item"
    by (simp_all add: Worklist_subscript_def)
  have ok: "dataFolder (datasets ?s) @ fileName ?item \<notin> write_protected (disk ?s)"
    by (simp add: example_disk_def)
  have no: "dataFolder (datasets ?t) @ fileName ?item \<in> write_protected (disk ?t)"
    by simp
  have saved: "fst (saveDataset 0 example_time ?s)"
    by (simp add: saveDataset_def Worklist_saveDatasetInFile_def Worklist_subscript_def
        saveFile_def example_disk_def ScopedStatus_ctor_def Let_def)
  note inst = dirty_flag_lifecycle [OF run, of example_time 0 ?item]
  note inst' = dirty_flag_lifecycle [OF run', of example_time 0 ?item]
  let ?clean = "\<lparr>dataset = Some (DcmDataset []),
                  fileName = ''dataset_20250101_120000_5.dcm'', dirty = False\<rparr>"
  show "\<exists>s. server_run [AddDataset valid_ptr example_time]
            (DICOMWorklistSCP_ctor example_time [] example_disk example_scp) = Inr s
      \<and> Worklist_subscript (datasets s) 0 = Some ?item
      \<and> dataFolder (datasets s) @ ''dataset_20250101_120000_5.dcm''
          \<notin> write_protected (disk s)
      \<and> fst (saveDataset 0 example_time s)
      \<and> (\<exists>saved. Worklist_subscript (datasets (snd (saveDataset 0 example_time s))) 0
                    = Some saved \<and> \<not> dirty saved)
      \<and> Worklist_subscript (datasets (snd (saveAllDatasets example_time s))) 0 = Some ?clean
      \<and> Worklist_subscript (datasets (snd (saveDirtyDatasets example_time s))) 0 = Some ?clean
      \<and> fst (markDatasetDirty 0 s)
      \<and> Worklist_subscript
            (datasets (snd (saveDirtyDatasets example_time (snd (markDatasetDirty 0 s))))) 0
          = Some ?clean"
  proof (intro exI [of _ ?s] conjI)
    show "server_run [AddDataset valid_ptr example_time]
            (DICOMWorklistSCP_ctor example_time [] example_disk example_scp) = Inr ?s"
      by (rule run)
    show "Worklist_subscript (datasets ?s) 0 = Some ?item" by (rule item)
    show "dataFolder (datasets ?s) @ ''dataset_20250101_120000_5.dcm''
            \<notin> write_protected (disk ?s)"
      using ok by simp
    show "fst (saveDataset 0 example_time ?s)" by (rule saved)
    show "\<exists>saved. Worklist_subscript (datasets (snd (saveDataset 0 example_time ?s))) 0
                    = Some saved \<and> \<not> dirty saved"
      using inst saved by blast
    show "Worklist_subscript (datasets (snd (saveAllDatasets example_time ?s))) 0 = Some ?clean"
      using inst item ok by simp
    show "Worklist_subscript (datasets (snd (saveDirtyDatasets example_time ?s))) 0 = Some ?clean"
      using inst item ok by simp
    show "fst (markDatasetDirty 0 ?s)" using inst item by blast
    show "Worklist_subscript
            (datasets (snd (saveDirtyDatasets example_time (snd (markDatasetDirty 0 ?s))))) 0
          = Some ?clean"
      using inst item ok by simp
  qed
  show "\<exists>s. server_run [AddDataset valid_ptr example_time]
            (DICOMWorklistSCP_ctor example_time []
               (example_disk\<lparr>write_protected :=
                   {''./worklist/dataset_20250101_120000_5.dcm''}\<rparr>) example_scp) = Inr s
      \<and> Worklist_subscript (datasets s) 0 = Some ?item
      \<and> dataFolder (datasets s) @ ''dataset_20250101_120000_5.dcm'' \<in> write_protected (disk s)
      \<and> \<not> fst (saveDirtyDatasets example_time (snd (markDatasetDirty 0 s)))"
  proof (intro exI [of _ ?t] conjI)
    show "server_run [AddDataset valid_ptr example_time]
            (DICOMWorklistSCP_ctor example_time [] ?d example_scp) = Inr ?t"
      by (rule run')
    show "Worklist_subscript (datasets ?t) 0 = Some ?item" by (rule item')
    show "dataFolder (datasets ?t) @ ''dataset_20250101_120000_5.dcm'' \<in> write_protected (disk ?t)"
      by simp
    show "\<not> fst (saveDirtyDatasets example_time (snd (markDatasetDirty 0 ?t)))"
      using inst' item' no by blast
  qed
qed

text \<open>
  What \<open>saveDirtyDatasets\<close> leaves alone. An item that is not dirty stays as it is. Its
  file stays as it is too, as long as no dirty item has the same file name. The call returns
  true exactly when every dirty item could be written.
\<close>

lemma saveDirtyDatasets_clean_items:
  assumes item: "Worklist_subscript (datasets s) i = Some item" and clean: "\<not> dirty item"
  shows "Worklist_subscript (datasets (snd (saveDirtyDatasets now s))) i = Some item"
    and "list_all (\<lambda>(j, other). dataset other = None \<or> \<not> dirty other
                      \<or> fileName other \<noteq> fileName item) (indexMap (datasets s))
         \<Longrightarrow> files (disk (snd (saveDirtyDatasets now s)))
                (dataFolder (datasets s) @ fileName item)
             = files (disk s) (dataFolder (datasets s) @ fileName item)"
    and "fst (saveDirtyDatasets now s)
           = list_all (\<lambda>(j, other). dataset other = None \<or> \<not> dirty other
                \<or> dataFolder (datasets s) @ fileName other \<notin> write_protected (disk s))
               (indexMap (datasets s))"
proof -
  obtain items st2 d2 b where loop:
    "saveDirty_loop (dataFolder (datasets s)) now (indexMap (datasets s))
       (snd (ScopedStatus_ctor (serverStatus s) ''Saving dirty datasets'' ''None''))
       (disk s) True = (items, st2, d2, b)"
    by (metis prod_cases4)
  note res = saveDirty_loop_result [OF loop]
  from item have lk: "map_of (indexMap (datasets s)) i = Some item"
    by (simp add: Worklist_subscript_def)
  from res lk clean
  show "Worklist_subscript (datasets (snd (saveDirtyDatasets now s))) i = Some item"
    by (simp add: Worklist_subscript_def saveDirtyDatasets_unfold(2) [OF loop] map_of_map_item)
  from res show "fst (saveDirtyDatasets now s)
           = list_all (\<lambda>(j, other). dataset other = None \<or> \<not> dirty other
                \<or> dataFolder (datasets s) @ fileName other \<notin> write_protected (disk s))
               (indexMap (datasets s))"
    by (simp add: saveDirtyDatasets_unfold(1) [OF loop])
  assume "list_all (\<lambda>(j, other). dataset other = None \<or> \<not> dirty other
                      \<or> fileName other \<noteq> fileName item) (indexMap (datasets s))"
  then have "list_all (\<lambda>(j, other). dataset other = None \<or> \<not> dirty other
                \<or> dataFolder (datasets s) @ fileName item
                     \<noteq> dataFolder (datasets s) @ fileName other) (indexMap (datasets s))"
    by (auto simp: list_all_iff)
  with loop have "files d2 (dataFolder (datasets s) @ fileName item)
                    = files (disk s) (dataFolder (datasets s) @ fileName item)"
    by (rule saveDirty_loop_files)
  then show "files (disk (snd (saveDirtyDatasets now s)))
                (dataFolder (datasets s) @ fileName item)
             = files (disk s) (dataFolder (datasets s) @ fileName item)"
    by (simp add: saveDirtyDatasets_unfold(3) [OF loop])
qed

text \<open>
  C4. \<open>saveDirtyDatasets\<close> is to leave the file of an item that is not dirty unchanged.
  It does not where file names collide, and \<^verbatim>\<open>newFileName\<close> gives two items added in the
  same millisecond the same name. On the example server two items are added at the same
  clock reading, from the templates \<open>a.dcm\<close> and \<open>b.dcm\<close>, and the first is saved: it is
  clean and its file holds its record. \<open>saveDirtyDatasets\<close> then returns true and leaves
  the item as it is, but the file now holds the record of the second item.
\<close>

theorem saveDirtyDatasets_rewrites_the_file_of_a_clean_item:
  "\<exists>s. server_run
          [SetTemplateFile ''a.dcm'', AddDataset valid_ptr example_time,
           SetTemplateFile ''b.dcm'', AddDataset valid_ptr example_time,
           SaveDataset 0 example_time]
          example_server = Inr s
      \<and> Worklist_subscript (datasets s) 0
          = Some \<lparr>dataset = Some (DcmDataset [(1, ''A'')]),
                  fileName = ''dataset_20250101_120000_5.dcm'', dirty = False\<rparr>
      \<and> files (disk s) ''./worklist/dataset_20250101_120000_5.dcm''
          = Some (DicomFile (DcmDataset [(1, ''A'')]))
      \<and> fst (saveDirtyDatasets example_time s)
      \<and> Worklist_subscript (datasets (snd (saveDirtyDatasets example_time s))) 0
          = Some \<lparr>dataset = Some (DcmDataset [(1, ''A'')]),
                  fileName = ''dataset_20250101_120000_5.dcm'', dirty = False\<rparr>
      \<and> files (disk (snd (saveDirtyDatasets example_time s)))
            ''./worklist/dataset_20250101_120000_5.dcm''
          = Some (DicomFile (DcmDataset [(1, ''B'')]))"
  by (simp add: example_server_eq example_disk_def setTemplateFile_def addDataset_def Let_def
      Worklist_add_def Worklist_getFreeIndex_def Worklist_default_def example_file_name
      ScopedStatus_ctor_def ScopedStatus_dtor_def SCPStatus_default_def loadFile_def
      saveDataset_def Worklist_saveDatasetInFile_def Worklist_subscript_def saveFile_def
      saveDirtyDatasets_def Worklist_saveDirtyDatasetsInFile_def saveDirty_body_def)

end
